theory Spec2Isabelle
  imports Complex_Main "HOL-Library.Word"
begin

unbundle bit_operations_syntax

section \<open>The RTP tone generator of sw/pipewire_rtp_experiments\<close>

text \<open>
  The repository holds two variants of one class, \<open>RTPAudioGenerator\<close>:
  \<^verbatim>\<open>rtp_send.py\<close> and \<^verbatim>\<open>rtp_send_sap.py\<close>. Their constructors differ in the payload
  type (96 and 10), their \<open>send_rtp_packet\<close> methods differ in the timestamp increment and
  in some progress output, and the second file adds \<open>send_sap_announcement\<close>.
  \<open>create_rtp_header\<close> and \<open>generate_audio_buffer\<close> are the same text in both files
  and are embedded once. Definitions of the second file carry the suffix \<open>_sap\<close>.

  Python integers are \<open>int\<close>. A Python float is the real number it denotes. The two
  products of the conversion to 16-bit samples (\<open>audio * 0.7\<close> and \<open>audio * 32767\<close>)
  are rounded to binary64 as the machine rounds them. The sine wave itself and the phase
  update are idealised: there \<open>+\<close>, \<open>*\<close>, \<open>/\<close> and \<open>sin\<close> are the exact operations, and
  the statements about emitted samples are made for every array of samples, not only for
  the idealised sine. Bytes are \<open>8 word\<close>, numpy's \<open>int16\<close> is \<open>16 word\<close>.
\<close>

subsection \<open>Data model\<close>

type_synonym byte = "8 word"
type_synonym addr = "string \<times> int"
type_synonym datagram = "addr \<times> byte list"

datatype py_error = ZeroDivisionError | ValueError | StructError

text \<open>The lines the program prints, one constructor per \<open>print\<close> call of the source.\<close>

datatype msg =
    Starting_stream
  | Audio_info
  | Frequency_info
  | Press_ctrl_c
  | Error_sending_RTP_packet
  | Timing_drift real
  | Stopping_RTP_stream
  | Sent_RTP_packets int
  | Frequency_changed real
  | Amplitude_changed real
  | Sending_packet int nat int
  | RTP_Header int int int int int int int int int
  | Sent_bytes nat
  | SAP_announcement_sent
  | Failed_SAP_announcement

text \<open>
  The attributes set by \<open>__init__\<close>, with the world the object acts on:
  \<open>socket_open\<close> is the state of \<open>self.socket\<close>, \<open>wire\<close> the datagrams that
  \<open>sendto\<close> calls have delivered so far, \<open>stdout\<close> the lines printed so far, and
  \<open>sap_sockets_open\<close> the number of announcement sockets created and not yet closed
  by a \<open>close()\<close> call.
\<close>

record generator =
  target_ip :: string
  target_port :: int
  sample_rate :: int
  channels :: int
  buffer_size :: int
  bytes_per_sample :: int
  version :: int
  padding :: int
  extension :: int
  cc :: int
  marker :: int
  payload_type :: int
  sequence_number :: int
  timestamp :: int
  ssrc :: int
  frequency :: real
  amplitude :: real
  phase :: real
  socket_open :: bool
  running :: bool
  wire :: "datagram list"
  stdout :: "msg list"
  sap_sockets_open :: nat

definition init :: "string \<Rightarrow> int \<Rightarrow> int \<Rightarrow> int \<Rightarrow> int \<Rightarrow> generator" where
  "init ip port rate chans bufsize =
     \<lparr> target_ip = ip, target_port = port,
       sample_rate = rate, channels = chans, buffer_size = bufsize, bytes_per_sample = 2,
       version = 2, padding = 0, extension = 0, cc = 0, marker = 0,
       payload_type = 96, sequence_number = 0, timestamp = 0, ssrc = 0x12345678,
       frequency = 440, amplitude = 3 / 10, phase = 0,
       socket_open = True, running = False,
       wire = [], stdout = [], sap_sockets_open = 0 \<rparr>"

definition init_sap :: "string \<Rightarrow> int \<Rightarrow> int \<Rightarrow> int \<Rightarrow> int \<Rightarrow> generator" where
  "init_sap ip port rate chans bufsize = (init ip port rate chans bufsize)\<lparr>payload_type := 10\<rparr>"

text \<open>The constructor's default arguments, as \<open>RTPAudioGenerator()\<close> takes them.\<close>

definition default_generator :: generator where
  "default_generator = init ''127.0.0.1'' 5004 48000 2 64"

definition default_generator_sap :: generator where
  "default_generator_sap = init_sap ''127.0.0.1'' 5004 48000 2 64"

subsection \<open>struct.pack in network byte order\<close>

text \<open>
  \<open>struct.pack('!BBHII', ...)\<close> raises \<open>struct.error\<close> when an argument does not fit its
  field; otherwise it emits the fields big-endian, most significant byte first.
\<close>

definition pack_B :: "int \<Rightarrow> py_error + byte list" where
  "pack_B v = (if 0 \<le> v \<and> v < 2 ^ 8 then Inr [word_of_int v] else Inl StructError)"

definition pack_H :: "int \<Rightarrow> py_error + byte list" where
  "pack_H v =
     (if 0 \<le> v \<and> v < 2 ^ 16 then Inr [word_of_int (drop_bit 8 v), word_of_int v]
      else Inl StructError)"

definition pack_I :: "int \<Rightarrow> py_error + byte list" where
  "pack_I v =
     (if 0 \<le> v \<and> v < 2 ^ 32
      then Inr [word_of_int (drop_bit 24 v), word_of_int (drop_bit 16 v),
                word_of_int (drop_bit 8 v), word_of_int v]
      else Inl StructError)"

definition pack_BBHII :: "int \<Rightarrow> int \<Rightarrow> int \<Rightarrow> int \<Rightarrow> int \<Rightarrow> py_error + byte list" where
  "pack_BBHII b1 b2 h i1 i2 =
     (case pack_B b1 of Inl e \<Rightarrow> Inl e | Inr x1 \<Rightarrow>
     (case pack_B b2 of Inl e \<Rightarrow> Inl e | Inr x2 \<Rightarrow>
     (case pack_H h of Inl e \<Rightarrow> Inl e | Inr x3 \<Rightarrow>
     (case pack_I i1 of Inl e \<Rightarrow> Inl e | Inr x4 \<Rightarrow>
     (case pack_I i2 of Inl e \<Rightarrow> Inl e | Inr x5 \<Rightarrow>
        Inr (x1 @ x2 @ x3 @ x4 @ x5))))))"

subsection \<open>create_rtp_header\<close>

definition create_rtp_header :: "generator \<Rightarrow> py_error + byte list" where
  "create_rtp_header s =
     (let first_byte = push_bit 6 (version s) OR push_bit 5 (padding s)
                         OR push_bit 4 (extension s) OR cc s;
          second_byte = push_bit 7 (marker s) OR payload_type s
      in pack_BBHII first_byte second_byte
           (sequence_number s AND 0xFFFF) (timestamp s AND 0xFFFFFFFF) (ssrc s))"

subsection \<open>Multiplication of binary64 numbers\<close>

text \<open>
  A product of two floats is the exact product rounded to the nearest binary64 number, ties
  to the even significand. \<open>ulp_exponent x\<close> is the exponent of the last of the 53
  significand bits at the magnitude of \<open>x\<close>, not below that of the subnormal numbers.
  Products beyond the largest finite binary64 number, which the machine rounds to infinity,
  are far outside every range considered below. \<open>float_0_7\<close> is the binary64 number that
  the literal \<open>0.7\<close> denotes.
\<close>

definition round_half_even :: "real \<Rightarrow> int" where
  "round_half_even y =
     (let f = \<lfloor>y\<rfloor>; d = y - real_of_int f
      in if d < 1 / 2 then f else if 1 / 2 < d then f + 1 else if even f then f else f + 1)"

definition ulp_exponent :: "real \<Rightarrow> int" where
  "ulp_exponent x = max \<lfloor>log 2 \<bar>x\<bar>\<rfloor> (- 1022) - 52"

definition binary64 :: "real \<Rightarrow> real" where
  "binary64 x =
     (if x = 0 then 0
      else real_of_int (round_half_even (x / 2 powi ulp_exponent x)) * 2 powi ulp_exponent x)"

definition fmul :: "real \<Rightarrow> real \<Rightarrow> real" where
  "fmul x y = binary64 (x * y)"

definition float_0_7 :: real where
  "float_0_7 = 3152519739159347 / 4503599627370496"

subsection \<open>generate_audio_buffer\<close>

text \<open>
  \<open>astype(np.int16)\<close> on a float array drops the fractional part (rounds towards zero).
  For a value outside the 16-bit range the C cast behind it is undefined and what numpy
  stores depends on the build; the model takes 0 there, and every statement below that
  reads a sample's value establishes first that it is in range.
\<close>

definition trunc :: "real \<Rightarrow> int" where
  "trunc x = (if 0 \<le> x then \<lfloor>x\<rfloor> else \<lceil>x\<rceil>)"

definition astype_int16 :: "real \<Rightarrow> 16 word" where
  "astype_int16 x =
     (if - 32768 \<le> trunc x \<and> trunc x \<le> 32767 then word_of_int (trunc x) else 0)"

text \<open>\<open>tobytes\<close> of an \<open>int16\<close> array on a little-endian host: low byte first.\<close>

definition tobytes :: "16 word list \<Rightarrow> byte list" where
  "tobytes ws = concat (map (\<lambda>w. [ucast w, ucast (drop_bit 8 w)]) ws)"

text \<open>The sine wave of lines 76 to 80, before the stereo step.\<close>

definition sine_wave :: "generator \<Rightarrow> real list" where
  "sine_wave s =
     (let samples_per_buffer = buffer_size s;
          t = map (\<lambda>i. real i / real_of_int (sample_rate s) + phase s)
                [0..<nat samples_per_buffer]
      in map (\<lambda>ti. amplitude s * sin (2 * pi * frequency s * ti)) t)"

text \<open>
  Lines 83 to 88: with two channels each sample becomes a row (left, right), and
  \<open>flatten\<close> reads the rows in order. \<open>np.zeros\<close> raises \<open>ValueError\<close> for a negative
  dimension. Any other channel count leaves the array as it is.
\<close>

definition to_channels :: "generator \<Rightarrow> real list \<Rightarrow> py_error + real list" where
  "to_channels s audio =
     (if channels s = 2
      then (if buffer_size s < 0 then Inl ValueError
            else Inr (concat (map (\<lambda>a. [a, fmul a float_0_7]) audio)))
      else Inr audio)"

text \<open>
  Lines 95 to 97. The division of two Python integers raises \<open>ZeroDivisionError\<close> for a
  zero sample rate (the numpy division of line 77 only warns).
\<close>

definition advance_phase :: "generator \<Rightarrow> py_error + generator" where
  "advance_phase s =
     (if sample_rate s = 0 then Inl ZeroDivisionError
      else let p = phase s + real_of_int (buffer_size s) / real_of_int (sample_rate s)
           in Inr (s\<lparr>phase := (if p > 1 then p - 1 else p)\<rparr>))"

definition audio_int16 :: "real list \<Rightarrow> 16 word list" where
  "audio_int16 audio = map (\<lambda>a. astype_int16 (fmul a 32767)) audio"

text \<open>Lines 82 to 92 on their own: from the array of line 80 to the bytes.\<close>

definition encode_audio :: "generator \<Rightarrow> real list \<Rightarrow> py_error + byte list" where
  "encode_audio s audio =
     (case to_channels s audio of
        Inl e \<Rightarrow> Inl e
      | Inr samples \<Rightarrow> Inr (tobytes (audio_int16 samples)))"

definition generate_audio_buffer :: "generator \<Rightarrow> py_error + (byte list \<times> generator)" where
  "generate_audio_buffer s =
     (case to_channels s (sine_wave s) of Inl e \<Rightarrow> Inl e | Inr audio \<Rightarrow>
      (let audio_bytes = tobytes (audio_int16 audio)
       in (case advance_phase s of Inl e \<Rightarrow> Inl e | Inr s' \<Rightarrow> Inr (audio_bytes, s'))))"

subsection \<open>send_rtp_packet\<close>

text \<open>
  \<open>sendto\<close> raises when the socket is closed or when the network refuses the datagram;
  the argument \<open>net_ok\<close> is the network's answer for this call. An exception raised
  before the \<open>try\<close> leaves the object as it was and propagates (\<open>Inl\<close>).
\<close>

definition sendto_ok :: "bool \<Rightarrow> generator \<Rightarrow> bool" where
  "sendto_ok net_ok s = (socket_open s \<and> net_ok)"

definition send_rtp_packet :: "bool \<Rightarrow> generator \<Rightarrow> py_error + (bool \<times> generator)" where
  "send_rtp_packet net_ok s =
     (case create_rtp_header s of Inl e \<Rightarrow> Inl e | Inr rtp_header \<Rightarrow>
     (case generate_audio_buffer s of Inl e \<Rightarrow> Inl e | Inr (audio_payload, s1) \<Rightarrow>
      (let rtp_packet = rtp_header @ audio_payload
       in if sendto_ok net_ok s1
          then Inr (True,
                 s1\<lparr>wire := wire s1 @ [((target_ip s1, target_port s1), rtp_packet)],
                    sequence_number := sequence_number s1 + 1,
                    timestamp := timestamp s1 + buffer_size s1 * channels s1\<rparr>)
          else Inr (False, s1\<lparr>stdout := stdout s1 @ [Error_sending_RTP_packet]\<rparr>))))"

subsection \<open>The second file: debug_rtp_header and its send_rtp_packet\<close>

text \<open>
  \<open>struct.unpack('!BBHII', header)\<close> needs exactly twelve bytes and raises
  \<open>struct.error\<close> otherwise.
\<close>

definition be_int :: "byte list \<Rightarrow> int" where
  "be_int bs = foldl (\<lambda>acc b. acc * 256 + uint b) 0 bs"

definition debug_rtp_header :: "byte list \<Rightarrow> py_error + msg list" where
  "debug_rtp_header header =
     (if length header \<ge> 12
      then (if length header \<noteq> 12 then Inl StructError
            else (let first_byte = be_int (take 1 header);
                      second_byte = be_int (take 1 (drop 1 header));
                      seq = be_int (take 2 (drop 2 header));
                      ts = be_int (take 4 (drop 4 header));
                      ssrc' = be_int (take 4 (drop 8 header))
                  in Inr [RTP_Header (drop_bit 6 first_byte AND 0x3) (drop_bit 5 first_byte AND 0x1)
                            (drop_bit 4 first_byte AND 0x1) (first_byte AND 0xF)
                            (drop_bit 7 second_byte AND 0x1) (second_byte AND 0x7F)
                            seq ts ssrc']))
      else Inr [])"

definition send_rtp_packet_sap :: "bool \<Rightarrow> generator \<Rightarrow> py_error + (bool \<times> generator)" where
  "send_rtp_packet_sap net_ok s =
     (case create_rtp_header s of Inl e \<Rightarrow> Inl e | Inr rtp_header \<Rightarrow>
     (case generate_audio_buffer s of Inl e \<Rightarrow> Inl e | Inr (audio_payload, s1) \<Rightarrow>
      (let rtp_packet = rtp_header @ audio_payload;
           verbose = (sequence_number s1 mod 100 = 0)
       in (case (if verbose then debug_rtp_header rtp_header else Inr []) of
             Inl e \<Rightarrow> Inl e
           | Inr header_lines \<Rightarrow>
              (let s2 = (if verbose
                         then s1\<lparr>stdout := stdout s1
                                  @ [Sending_packet (sequence_number s1) (length rtp_packet)
                                       (timestamp s1)]
                                  @ header_lines\<rparr>
                         else s1)
               in if sendto_ok net_ok s2
                  then (let s3 = s2\<lparr>wire := wire s2
                                        @ [((target_ip s2, target_port s2), rtp_packet)]\<rparr>;
                            s4 = (if verbose
                                  then s3\<lparr>stdout := stdout s3 @ [Sent_bytes (length rtp_packet)]\<rparr>
                                  else s3)
                        in Inr (True,
                             s4\<lparr>sequence_number := sequence_number s4 + 1,
                                timestamp := timestamp s4 + buffer_size s4\<rparr>))
                  else Inr (False, s2\<lparr>stdout := stdout s2 @ [Error_sending_RTP_packet]\<rparr>))))))"

subsection \<open>send_sap_announcement\<close>

text \<open>
  The announcement is fixed: \<open>struct.pack('!BBH', 0x20, 0x00, 0x0000)\<close> is the four
  bytes of \<open>sap_header\<close>, and \<open>encode('utf-8')\<close> of the ASCII text is one byte per
  character.
\<close>

definition sap_header :: "byte list" where
  "sap_header = [0x20, 0x00, 0x00, 0x00]"

definition sdp_lines :: "string list" where
  "sdp_lines =
     [''v=0'',
      ''o=- 123456789 123456789 IN IP4 127.0.0.1'',
      ''s=Python RTP Stream'',
      ''c=IN IP4 127.0.0.1'',
      ''t=0 0'',
      ''m=audio 5004 RTP/AVP 96'',
      ''a=rtpmap:96 L16/48000/2'']"

definition sdp_text :: string where
  "sdp_text = concat (map (\<lambda>l. l @ [CHR 0x0A]) sdp_lines)"

definition sdp_payload :: "byte list" where
  "sdp_payload = map of_char sdp_text"

definition sap_packet :: "byte list" where
  "sap_packet = sap_header @ sdp_payload"

text \<open>
  What the network does to one announcement: creating the socket raises, or the
  \<open>sendto\<close> on it raises, or both succeed. The three statements inside the \<open>try\<close> are
  \<open>sap_socket_create\<close>, the send, and \<open>sap_socket_close\<close>; an exception skips the rest
  of the \<open>try\<close> body and runs the handler, which only prints.
\<close>

datatype sap_outcome = Sap_socket_raises | Sap_sendto_raises | Sap_delivered

definition sap_socket_create :: "generator \<Rightarrow> generator" where
  "sap_socket_create s = s\<lparr>sap_sockets_open := sap_sockets_open s + 1\<rparr>"

definition sap_socket_close :: "generator \<Rightarrow> generator" where
  "sap_socket_close s = s\<lparr>sap_sockets_open := sap_sockets_open s - 1\<rparr>"

definition send_sap_announcement :: "sap_outcome \<Rightarrow> generator \<Rightarrow> generator" where
  "send_sap_announcement net s =
     (case net of
        Sap_socket_raises \<Rightarrow> s\<lparr>stdout := stdout s @ [Failed_SAP_announcement]\<rparr>
      | Sap_sendto_raises \<Rightarrow>
          (let s1 = sap_socket_create s
           in s1\<lparr>stdout := stdout s1 @ [Failed_SAP_announcement]\<rparr>)
      | Sap_delivered \<Rightarrow>
          (let s1 = sap_socket_create s;
               s2 = s1\<lparr>wire := wire s1 @ [((''224.0.0.56'', 9875), sap_packet)]\<rparr>;
               s3 = sap_socket_close s2
           in s3\<lparr>stdout := stdout s3 @ [SAP_announcement_sent]\<rparr>))"

subsection \<open>start_streaming\<close>

text \<open>
  The loop runs against a script of what the environment does in each iteration: either
  \<open>Tick net_ok now1 now2\<close>, where \<open>net_ok\<close> is the network's answer to the
  \<open>sendto\<close>, \<open>now1\<close> the clock read for \<open>sleep_time\<close> and \<open>now2\<close> the clock read
  for the duration check, or \<open>Interrupt\<close>, a \<open>KeyboardInterrupt\<close> arriving at the top of
  the iteration. The result is \<open>None\<close> when the script ends while the loop is still
  running; otherwise it is the exception that left the loop (if any), the packet count and
  the state.
\<close>

datatype event = Tick bool real real | Interrupt

definition duration_reached :: "real option \<Rightarrow> real \<Rightarrow> bool" where
  "duration_reached duration elapsed =
     (case duration of None \<Rightarrow> False | Some d \<Rightarrow> d \<noteq> 0 \<and> elapsed \<ge> d)"

definition pace :: "real \<Rightarrow> generator \<Rightarrow> generator" where
  "pace sleep_time s =
     (if sleep_time > 0 then s
      else if sleep_time < - (1 / 1000) then s\<lparr>stdout := stdout s @ [Timing_drift sleep_time]\<rparr>
      else s)"

fun streaming_loop ::
  "(bool \<Rightarrow> generator \<Rightarrow> py_error + (bool \<times> generator)) \<Rightarrow> real option \<Rightarrow> real \<Rightarrow> real
     \<Rightarrow> event list \<Rightarrow> int \<Rightarrow> generator \<Rightarrow> (py_error option \<times> int \<times> generator) option" where
  "streaming_loop send duration packet_interval start_time [] packet_count s =
     (if running s then None else Some (None, packet_count, s))"
| "streaming_loop send duration packet_interval start_time (ev # evs) packet_count s =
     (if \<not> running s then Some (None, packet_count, s)
      else (case ev of
              Interrupt \<Rightarrow>
                Some (None, packet_count, s\<lparr>stdout := stdout s @ [Stopping_RTP_stream]\<rparr>)
            | Tick net_ok now1 now2 \<Rightarrow>
               (case send net_ok s of
                  Inl e \<Rightarrow> Some (Some e, packet_count, s)
                | Inr (sent, s1) \<Rightarrow>
                   if \<not> sent then Some (None, packet_count, s1)
                   else (let packet_count' = packet_count + 1;
                             next_packet_time =
                               start_time + real_of_int packet_count' * packet_interval;
                             sleep_time = next_packet_time - now1;
                             s2 = pace sleep_time s1
                         in if duration_reached duration (now2 - start_time)
                            then Some (None, packet_count', s2)
                            else streaming_loop send duration packet_interval start_time
                                   evs packet_count' s2))))"

text \<open>
  The \<open>finally\<close> block runs on every way out of the \<open>try\<close>. The division that computes
  \<open>packet_interval\<close> stands before the \<open>try\<close>: with a zero sample rate it raises and
  the \<open>finally\<close> block does not run.
\<close>

definition banner :: "generator \<Rightarrow> generator" where
  "banner s = s\<lparr>stdout := stdout s @ [Starting_stream, Audio_info, Frequency_info, Press_ctrl_c]\<rparr>"

definition finally_block :: "int \<Rightarrow> generator \<Rightarrow> generator" where
  "finally_block packet_count s =
     s\<lparr>running := False, socket_open := False,
       stdout := stdout s @ [Sent_RTP_packets packet_count]\<rparr>"

definition run_loop ::
  "(bool \<Rightarrow> generator \<Rightarrow> py_error + (bool \<times> generator)) \<Rightarrow> real option \<Rightarrow> real
     \<Rightarrow> event list \<Rightarrow> generator \<Rightarrow> (py_error option \<times> generator) option" where
  "run_loop send duration start_time events s =
     (let s1 = s\<lparr>running := True\<rparr>
      in if sample_rate s1 = 0 then Some (Some ZeroDivisionError, s1)
         else (let packet_interval = real_of_int (buffer_size s1) / real_of_int (sample_rate s1)
               in (case streaming_loop send duration packet_interval start_time events 0 s1 of
                     None \<Rightarrow> None
                   | Some (exc, packet_count, s2) \<Rightarrow>
                       Some (exc, finally_block packet_count s2))))"

definition start_streaming ::
  "real option \<Rightarrow> real \<Rightarrow> event list \<Rightarrow> generator \<Rightarrow> (py_error option \<times> generator) option" where
  "start_streaming duration start_time events s =
     run_loop send_rtp_packet duration start_time events (banner s)"

definition start_streaming_sap ::
  "sap_outcome \<Rightarrow> real option \<Rightarrow> real \<Rightarrow> event list \<Rightarrow> generator
     \<Rightarrow> (py_error option \<times> generator) option" where
  "start_streaming_sap sap_net duration start_time events s =
     run_loop send_rtp_packet_sap duration start_time events
       (send_sap_announcement sap_net (banner s))"

subsection \<open>set_frequency and set_amplitude\<close>

definition set_frequency :: "real \<Rightarrow> generator \<Rightarrow> generator" where
  "set_frequency freq s = s\<lparr>frequency := freq, stdout := stdout s @ [Frequency_changed freq]\<rparr>"

definition set_amplitude :: "real \<Rightarrow> generator \<Rightarrow> generator" where
  "set_amplitude amp s =
     (let a = max 0 (min 1 amp)
      in s\<lparr>amplitude := a, stdout := stdout s @ [Amplitude_changed a]\<rparr>)"

section \<open>Notions used to state the properties\<close>

text \<open>
  \<open>header_packs\<close> holds when \<open>struct.pack\<close> accepts the three header arguments that are
  not masked; \<open>can_frame\<close> adds what \<open>generate_audio_buffer\<close> needs to return. Both
  depend only on attributes that no method assigns after \<open>__init__\<close>.
\<close>

definition header_packs :: "generator \<Rightarrow> bool" where
  "header_packs s =
     (let first_byte = push_bit 6 (version s) OR push_bit 5 (padding s)
                         OR push_bit 4 (extension s) OR cc s;
          second_byte = push_bit 7 (marker s) OR payload_type s
      in 0 \<le> first_byte \<and> first_byte < 256 \<and> 0 \<le> second_byte \<and> second_byte < 256
         \<and> 0 \<le> ssrc s \<and> ssrc s < 4294967296)"

definition can_frame :: "generator \<Rightarrow> bool" where
  "can_frame s =
     (header_packs s \<and> sample_rate s \<noteq> 0 \<and> (channels s = 2 \<longrightarrow> 0 \<le> buffer_size s))"

text \<open>The sequence-number field of a packet: bytes 2 and 3, big-endian.\<close>

definition seq_field :: "byte list \<Rightarrow> int" where
  "seq_field pkt = be_int (take 2 (drop 2 pkt))"

text \<open>The value that lines 95 to 97 store in \<open>self.phase\<close>.\<close>

definition wrapped_phase :: "generator \<Rightarrow> real" where
  "wrapped_phase s =
     (let p = phase s + real_of_int (buffer_size s) / real_of_int (sample_rate s)
      in if p > 1 then p - 1 else p)"

text \<open>
  \<open>n\<close> successive calls of \<open>generate_audio_buffer\<close> on one object, the payloads dropped:
  what the phase goes through in a run of \<open>n\<close> blocks.
\<close>

fun generate_blocks :: "nat \<Rightarrow> generator \<Rightarrow> py_error + generator" where
  "generate_blocks 0 s = Inr s"
| "generate_blocks (Suc n) s =
     (case generate_audio_buffer s of
        Inl e \<Rightarrow> Inl e
      | Inr (audio_bytes, s') \<Rightarrow> generate_blocks n s')"

text \<open>
  Reading a payload back: sample \<open>k\<close> is the 16-bit word whose low byte is byte \<open>2k\<close> and
  whose high byte is byte \<open>2k + 1\<close> (little-endian), and its value is that word read as
  two's complement.
\<close>

definition pcm_word :: "byte list \<Rightarrow> nat \<Rightarrow> 16 word" where
  "pcm_word payload k = word_cat (payload ! (2 * k + 1)) (payload ! (2 * k))"

definition pcm_sample :: "byte list \<Rightarrow> nat \<Rightarrow> int" where
  "pcm_sample payload k = sint (pcm_word payload k)"

text \<open>
  A generator at 4 Hz sample rate with 4 samples per block and a 1 Hz tone
  (\<^verbatim>\<open>--rate 4 --buffer 4 --freq 1\<close>, then \<open>set_amplitude\<close>): sample 1 of its first block
  lies on the peak of the sine, where \<open>sin\<close> is exactly 1.
\<close>

definition peak_probe :: "int \<Rightarrow> real \<Rightarrow> generator" where
  "peak_probe chans amp =
     set_amplitude amp (set_frequency 1 (init ''127.0.0.1'' 5004 4 chans 4))"

text \<open>
  For the pacing loop: the number of transmit errors printed so far; a script of
  iterations whose \<open>sendto\<close> succeeds, given by their two clock readings; and the
  condition that the duration check does not end the loop in any of them.
\<close>

definition errors_reported :: "generator \<Rightarrow> nat" where
  "errors_reported s = count_list (stdout s) Error_sending_RTP_packet"

definition good_ticks :: "(real \<times> real) list \<Rightarrow> event list" where
  "good_ticks ts = map (\<lambda>(now1, now2). Tick True now1 now2) ts"

definition no_stop :: "real option \<Rightarrow> real \<Rightarrow> (real \<times> real) list \<Rightarrow> bool" where
  "no_stop duration start_time ts =
     (\<forall>(now1, now2) \<in> set ts. \<not> duration_reached duration (now2 - start_time))"

section \<open>Basic facts\<close>

lemma and_ffff: "(x::int) AND 0xFFFF = x mod 65536"
proof -
  have m: "(0xFFFF::int) = mask 16" by (simp add: mask_eq_exp_minus_1)
  have "x AND mask 16 = x mod 2 ^ 16" by (simp only: take_bit_eq_mod flip: take_bit_eq_mask)
  then show ?thesis by (simp only: m) simp
qed

lemma and_ffffffff: "(x::int) AND 0xFFFFFFFF = x mod 4294967296"
proof -
  have m: "(0xFFFFFFFF::int) = mask 32" by (simp add: mask_eq_exp_minus_1)
  have "x AND mask 32 = x mod 2 ^ 32" by (simp only: take_bit_eq_mod flip: take_bit_eq_mask)
  then show ?thesis by (simp only: m) simp
qed

lemma wrap_next:
  assumes "(q::int) mod 65536 = 65535"
  shows "(q + 1) mod 65536 = 0"
proof -
  have "(q + 1) mod 65536 = (q mod 65536 + 1) mod 65536"
    by (simp only: mod_add_left_eq)
  also have "\<dots> = 0" by (simp only: assms) simp
  finally show ?thesis .
qed

lemma create_rtp_header_packs:
  assumes "header_packs s"
  shows "create_rtp_header s =
     Inr [word_of_int (push_bit 6 (version s) OR push_bit 5 (padding s)
                         OR push_bit 4 (extension s) OR cc s),
          word_of_int (push_bit 7 (marker s) OR payload_type s),
          word_of_int (drop_bit 8 (sequence_number s mod 65536)),
          word_of_int (sequence_number s mod 65536),
          word_of_int (drop_bit 24 (timestamp s mod 4294967296)),
          word_of_int (drop_bit 16 (timestamp s mod 4294967296)),
          word_of_int (drop_bit 8 (timestamp s mod 4294967296)),
          word_of_int (timestamp s mod 4294967296),
          word_of_int (drop_bit 24 (ssrc s)), word_of_int (drop_bit 16 (ssrc s)),
          word_of_int (drop_bit 8 (ssrc s)), word_of_int (ssrc s)]"
  using assms
  by (simp add: header_packs_def create_rtp_header_def pack_BBHII_def pack_B_def pack_H_def
      pack_I_def Let_def and_ffff and_ffffffff)

lemma create_rtp_header_Inr_iff: "(\<exists>h. create_rtp_header s = Inr h) = header_packs s"
  by (auto simp add: header_packs_def create_rtp_header_def pack_BBHII_def pack_B_def pack_H_def
      pack_I_def Let_def and_ffff and_ffffffff split: if_splits sum.splits)

lemma be_int_H:
  "0 \<le> m \<Longrightarrow> m < 65536 \<Longrightarrow> be_int [word_of_int (drop_bit 8 m), word_of_int m] = m"
  by (simp add: be_int_def uint_word_of_int drop_bit_eq_div)

lemma seq_field_header:
  assumes "create_rtp_header s = Inr h"
  shows "seq_field (h @ p) = sequence_number s mod 65536" and "length h = 12"
proof -
  have hp: "header_packs s" using assms create_rtp_header_Inr_iff by blast
  have m: "0 \<le> sequence_number s mod 65536" "sequence_number s mod 65536 < 65536" by simp_all
  show "seq_field (h @ p) = sequence_number s mod 65536"
    using assms be_int_H[OF m] unfolding create_rtp_header_packs[OF hp] seq_field_def
    by auto
  show "length h = 12"
    using assms unfolding create_rtp_header_packs[OF hp] by auto
qed

lemma header_packs_cong:
  "version s' = version s \<Longrightarrow> padding s' = padding s \<Longrightarrow> extension s' = extension s \<Longrightarrow>
   cc s' = cc s \<Longrightarrow> marker s' = marker s \<Longrightarrow> payload_type s' = payload_type s \<Longrightarrow>
   ssrc s' = ssrc s \<Longrightarrow> header_packs s' = header_packs s"
  by (simp add: header_packs_def)

lemma can_frame_cong:
  "version s' = version s \<Longrightarrow> padding s' = padding s \<Longrightarrow> extension s' = extension s \<Longrightarrow>
   cc s' = cc s \<Longrightarrow> marker s' = marker s \<Longrightarrow> payload_type s' = payload_type s \<Longrightarrow>
   ssrc s' = ssrc s \<Longrightarrow> sample_rate s' = sample_rate s \<Longrightarrow> channels s' = channels s \<Longrightarrow>
   buffer_size s' = buffer_size s \<Longrightarrow> can_frame s' = can_frame s"
  by (simp add: can_frame_def header_packs_def)

lemma can_frame_default: "can_frame default_generator"
  by (simp add: can_frame_def header_packs_def default_generator_def init_def)

lemma can_frame_default_sap: "can_frame default_generator_sap"
  by (simp add: can_frame_def header_packs_def default_generator_sap_def init_sap_def init_def)

lemma generate_audio_buffer_state:
  assumes "generate_audio_buffer s = Inr (p, s1)"
  shows "s1 = s\<lparr>phase := wrapped_phase s\<rparr>" and "sample_rate s \<noteq> 0"
  using assms
  by (auto simp: generate_audio_buffer_def advance_phase_def wrapped_phase_def Let_def
      split: sum.splits if_splits)

lemma generate_audio_buffer_can_frame:
  assumes "can_frame s"
  shows "generate_audio_buffer s
         = Inr (fst (projr (generate_audio_buffer s)), s\<lparr>phase := wrapped_phase s\<rparr>)"
  using assms
  by (auto simp: can_frame_def generate_audio_buffer_def to_channels_def advance_phase_def
      wrapped_phase_def Let_def)

lemma send_rtp_packet_cases:
  assumes "send_rtp_packet net_ok s = Inr (ok, s')"
  obtains h p s1 where "create_rtp_header s = Inr h" "generate_audio_buffer s = Inr (p, s1)"
    "ok = sendto_ok net_ok s1"
    "ok \<Longrightarrow> s' = s1\<lparr>wire := wire s1 @ [((target_ip s1, target_port s1), h @ p)],
                   sequence_number := sequence_number s1 + 1,
                   timestamp := timestamp s1 + buffer_size s1 * channels s1\<rparr>"
    "\<not> ok \<Longrightarrow> s' = s1\<lparr>stdout := stdout s1 @ [Error_sending_RTP_packet]\<rparr>"
  using assms
  by (auto simp: send_rtp_packet_def Let_def split: sum.splits if_splits prod.splits)

lemma send_rtp_packet_can_frame:
  assumes "can_frame s"
  shows "send_rtp_packet net_ok s =
     (if socket_open s \<and> net_ok
      then Inr (True, s\<lparr>phase := wrapped_phase s,
                  wire := wire s @ [((target_ip s, target_port s),
                             projr (create_rtp_header s) @ fst (projr (generate_audio_buffer s)))],
                  sequence_number := sequence_number s + 1,
                  timestamp := timestamp s + buffer_size s * channels s\<rparr>)
      else Inr (False, s\<lparr>phase := wrapped_phase s,
                   stdout := stdout s @ [Error_sending_RTP_packet]\<rparr>))"
proof -
  from assms have "header_packs s" by (simp add: can_frame_def)
  then obtain h where h: "create_rtp_header s = Inr h" using create_rtp_header_Inr_iff by blast
  show ?thesis
    unfolding send_rtp_packet_def h
    by (subst generate_audio_buffer_can_frame[OF assms]) (simp add: sendto_ok_def)
qed

section \<open>The claims\<close>

subsection \<open>C1: the timestamp step\<close>

text \<open>
  C1 says that every framed packet advances the RTP timestamp by exactly the block size,
  never by the block size times the channel count. \<open>send_rtp_packet\<close> of
  \<^verbatim>\<open>rtp_send.py\<close> adds \<open>buffer_size * channels\<close>: with the constructor's defaults
  (two channels, 64 samples per block) the first successful send moves the timestamp from
  0 to 128, not to 64.
\<close>

theorem rtp_send_timestamp_step_default:
  "\<not> isl (send_rtp_packet True default_generator)
   \<and> fst (projr (send_rtp_packet True default_generator))
   \<and> buffer_size default_generator = 64
   \<and> channels default_generator = 2
   \<and> timestamp default_generator = 0
   \<and> timestamp (snd (projr (send_rtp_packet True default_generator))) = 128"
  by (simp add: send_rtp_packet_can_frame[OF can_frame_default])
     (simp add: default_generator_def init_def)

subsection \<open>C2: the sequence number\<close>

text \<open>
  C2 as stated says that the stored sequence number wraps: that the value after 65535 is 0
  in the object as well as in the header. It fails for the stored value:
  \<open>self.sequence_number += 1\<close> on a Python integer gives 65536.
\<close>

theorem stored_sequence_number_counterexample:
  "\<not> isl (send_rtp_packet True (default_generator\<lparr>sequence_number := 65535\<rparr>))
   \<and> fst (projr (send_rtp_packet True (default_generator\<lparr>sequence_number := 65535\<rparr>)))
   \<and> sequence_number
        (snd (projr (send_rtp_packet True (default_generator\<lparr>sequence_number := 65535\<rparr>))))
       = 65536
   \<and> sequence_number
        (snd (projr (send_rtp_packet True (default_generator\<lparr>sequence_number := 65535\<rparr>))))
       \<noteq> 0"
proof -
  have cf: "can_frame (default_generator\<lparr>sequence_number := 65535\<rparr>)"
    by (rule can_frame_cong[THEN iffD2, OF _ _ _ _ _ _ _ _ _ _ can_frame_default]) simp_all
  show ?thesis
    by (simp add: send_rtp_packet_can_frame[OF cf]) (simp add: default_generator_def init_def)
qed

text \<open>
  C2 as amended: a successful \<open>send_rtp_packet\<close> adds exactly 1 to the stored sequence
  number, which is not reduced modulo 65536; the packet just sent carries the old stored
  value modulo 65536 big-endian in bytes 2 and 3, the next header carries the new stored
  value modulo 65536, and so in the header field 65535 is followed by 0.
\<close>

theorem sequence_number_step:
  assumes "send_rtp_packet net_ok s = Inr (True, s')"
  shows "sequence_number s' = sequence_number s + 1
       \<and> wire s' \<noteq> [] \<and> butlast (wire s') = wire s
       \<and> seq_field (snd (last (wire s'))) = sequence_number s mod 65536
       \<and> \<not> isl (create_rtp_header s')
       \<and> seq_field (projr (create_rtp_header s')) = (sequence_number s + 1) mod 65536
       \<and> (seq_field (snd (last (wire s'))) = 65535
            \<longrightarrow> seq_field (projr (create_rtp_header s')) = 0)"
proof -
  from assms obtain h p s1 where h: "create_rtp_header s = Inr h"
    and g: "generate_audio_buffer s = Inr (p, s1)"
    and s': "s' = s1\<lparr>wire := wire s1 @ [((target_ip s1, target_port s1), h @ p)],
                   sequence_number := sequence_number s1 + 1,
                   timestamp := timestamp s1 + buffer_size s1 * channels s1\<rparr>"
    by (elim send_rtp_packet_cases) blast
  note s1 = generate_audio_buffer_state(1)[OF g]
  have hp: "header_packs s" using h create_rtp_header_Inr_iff by blast
  have hp': "header_packs s'"
    by (rule header_packs_cong[THEN iffD2, OF _ _ _ _ _ _ _ hp]) (simp_all add: s' s1)
  then obtain h' where h': "create_rtp_header s' = Inr h'"
    using create_rtp_header_Inr_iff by blast
  have seq': "sequence_number s' = sequence_number s + 1" by (simp add: s' s1)
  have w: "wire s' = wire s @ [((target_ip s, target_port s), h @ p)]" by (simp add: s' s1)
  have f: "seq_field (h @ p) = sequence_number s mod 65536" by (rule seq_field_header[OF h])
  have f': "seq_field h' = (sequence_number s + 1) mod 65536"
    using seq_field_header(1)[OF h', of "[]"] seq' by simp
  have wrap: "sequence_number s mod 65536 = 65535 \<Longrightarrow> (sequence_number s + 1) mod 65536 = 0"
    by (rule wrap_next)
  show ?thesis using seq' w f f' h' wrap by simp
qed

theorem sequence_number_step_witness:
  "send_rtp_packet True (default_generator\<lparr>sequence_number := 65535\<rparr>)
     = Inr (True, snd (projr (send_rtp_packet True (default_generator\<lparr>sequence_number := 65535\<rparr>))))
   \<and> sequence_number
        (snd (projr (send_rtp_packet True (default_generator\<lparr>sequence_number := 65535\<rparr>))))
       = 65536
   \<and> seq_field (snd (last (wire
        (snd (projr (send_rtp_packet True (default_generator\<lparr>sequence_number := 65535\<rparr>)))))))
       = 65535
   \<and> seq_field (projr (create_rtp_header
        (snd (projr (send_rtp_packet True (default_generator\<lparr>sequence_number := 65535\<rparr>))))))
       = 0"
proof -
  let ?s = "default_generator\<lparr>sequence_number := 65535\<rparr>"
  let ?S = "?s\<lparr>phase := wrapped_phase ?s,
                wire := wire ?s @ [((target_ip ?s, target_port ?s),
                           projr (create_rtp_header ?s) @ fst (projr (generate_audio_buffer ?s)))],
                sequence_number := sequence_number ?s + 1,
                timestamp := timestamp ?s + buffer_size ?s * channels ?s\<rparr>"
  have cf: "can_frame ?s"
    by (rule can_frame_cong[THEN iffD2, OF _ _ _ _ _ _ _ _ _ _ can_frame_default]) simp_all
  have so: "socket_open ?s" by (simp add: default_generator_def init_def)
  have run: "send_rtp_packet True ?s = Inr (True, ?S)"
    by (simp add: send_rtp_packet_can_frame[OF cf] so)
  have res: "snd (projr (send_rtp_packet True ?s)) = ?S"
    by (simp only: run sum.sel snd_conv)
  have old: "sequence_number ?s = 65535" by simp
  show ?thesis
    unfolding res using sequence_number_step[OF run] run unfolding old by simp
qed

subsection \<open>C6: release of the announcement socket\<close>

text \<open>
  C6 says that the socket created by \<open>send_sap_announcement\<close> is closed before the call
  returns, whether the send succeeds or raises. In the source \<open>sap_socket.close()\<close> is
  the statement after \<open>sendto\<close> inside the \<open>try\<close> body, and there is no \<open>finally\<close>:
  when \<open>sendto\<close> raises, the handler prints and the call returns with the socket never
  closed. When the send succeeds the socket is closed.
\<close>

theorem sap_socket_left_open_on_send_failure:
  "sap_sockets_open default_generator_sap = 0
   \<and> sap_sockets_open (send_sap_announcement Sap_sendto_raises default_generator_sap) = 1
   \<and> stdout (send_sap_announcement Sap_sendto_raises default_generator_sap)
       = [Failed_SAP_announcement]
   \<and> sap_sockets_open (send_sap_announcement Sap_delivered default_generator_sap) = 0"
  by (simp add: send_sap_announcement_def sap_socket_create_def sap_socket_close_def
      default_generator_sap_def init_sap_def init_def)

subsection \<open>C8: what the announcement describes\<close>

text \<open>
  C8 says that the session description names the port, payload type, rate and channel
  count of the stream that is sent. The description is a constant text: it announces
  payload type 96, while the constructor of the same file sets payload type 10 and every
  RTP header carries 10 in its second byte. The text is also the same for every
  configuration: a generator built for port 6000, 44100 Hz and one channel sends its data
  to port 6000 and announces port 5004 and \<open>L16/48000/2\<close>.
\<close>

theorem sap_announces_other_payload_type:
  "sdp_lines ! 5 = ''m=audio 5004 RTP/AVP 96''
   \<and> sdp_lines ! 6 = ''a=rtpmap:96 L16/48000/2''
   \<and> payload_type default_generator_sap = 10
   \<and> create_rtp_header default_generator_sap
       = Inr [0x80, 10, 0, 0, 0, 0, 0, 0, 0x12, 0x34, 0x56, 0x78]
   \<and> wire (send_sap_announcement Sap_delivered default_generator_sap)
       = [((''224.0.0.56'', 9875), sap_header @ map of_char sdp_text)]
   \<and> wire (send_sap_announcement Sap_delivered (init_sap ''127.0.0.1'' 6000 44100 1 64))
       = [((''224.0.0.56'', 9875), sap_header @ map of_char sdp_text)]
   \<and> target_port (init_sap ''127.0.0.1'' 6000 44100 1 64) = 6000"
  by (simp add: sdp_lines_def send_sap_announcement_def sap_socket_create_def
      sap_socket_close_def sap_packet_def sdp_payload_def
      default_generator_sap_def init_sap_def init_def
      create_rtp_header_def pack_BBHII_def pack_B_def pack_H_def pack_I_def)

subsection \<open>C9: the counters after a failed send\<close>

lemma send_rtp_packet_sap_failed:
  assumes "send_rtp_packet_sap net_ok s = Inr (False, s')"
  shows "sequence_number s' = sequence_number s" "timestamp s' = timestamp s"
    "phase s' = wrapped_phase s" "wire s' = wire s"
    "last (stdout s') = Error_sending_RTP_packet"
proof -
  from assms obtain h p s1 where g: "generate_audio_buffer s = Inr (p, s1)"
    and r: "sequence_number s' = sequence_number s1 \<and> timestamp s' = timestamp s1
          \<and> phase s' = phase s1 \<and> wire s' = wire s1
          \<and> last (stdout s') = Error_sending_RTP_packet"
    by (auto simp: send_rtp_packet_sap_def Let_def split: sum.splits if_splits prod.splits)
  have s1: "s1 = s\<lparr>phase := wrapped_phase s\<rparr>" by (rule generate_audio_buffer_state(1)[OF g])
  from r show "sequence_number s' = sequence_number s" "timestamp s' = timestamp s"
    "phase s' = wrapped_phase s" "wire s' = wire s"
    "last (stdout s') = Error_sending_RTP_packet"
    by (simp_all add: s1)
qed

lemma send_rtp_packet_failed:
  assumes "send_rtp_packet net_ok s = Inr (False, s')"
  shows "s' = s\<lparr>phase := wrapped_phase s, stdout := stdout s @ [Error_sending_RTP_packet]\<rparr>"
proof -
  from assms obtain h p s1 where g: "generate_audio_buffer s = Inr (p, s1)"
    and s': "s' = s1\<lparr>stdout := stdout s1 @ [Error_sending_RTP_packet]\<rparr>"
    by (elim send_rtp_packet_cases) blast
  have s1: "s1 = s\<lparr>phase := wrapped_phase s\<rparr>" by (rule generate_audio_buffer_state(1)[OF g])
  show ?thesis unfolding s' by (simp add: s1)
qed


lemma debug_rtp_header_created:
  assumes "create_rtp_header s = Inr h"
  shows "\<not> isl (debug_rtp_header h)"
  using seq_field_header(2)[OF assms] by (simp add: debug_rtp_header_def Let_def)

lemma send_rtp_packet_sap_returns:
  assumes "can_frame s"
  shows "\<not> isl (send_rtp_packet_sap net_ok s)"
    and "fst (projr (send_rtp_packet_sap net_ok s)) = (socket_open s \<and> net_ok)"
proof -
  from assms have "header_packs s" by (simp add: can_frame_def)
  then obtain h where h: "create_rtp_header s = Inr h" using create_rtp_header_Inr_iff by blast
  obtain ls where d: "debug_rtp_header h = Inr ls"
    using debug_rtp_header_created[OF h] by (cases "debug_rtp_header h") simp_all
  have g: "generate_audio_buffer s
         = Inr (fst (projr (generate_audio_buffer s)), s\<lparr>phase := wrapped_phase s\<rparr>)"
    by (rule generate_audio_buffer_can_frame[OF assms])
  show "\<not> isl (send_rtp_packet_sap net_ok s)"
    unfolding send_rtp_packet_sap_def h
    by (subst g) (simp add: d Let_def sendto_ok_def)
  show "fst (projr (send_rtp_packet_sap net_ok s)) = (socket_open s \<and> net_ok)"
    unfolding send_rtp_packet_sap_def h
    by (subst g) (simp add: d Let_def sendto_ok_def)
qed

text \<open>
  C9: when \<open>send_rtp_packet\<close> (of either file) returns \<open>False\<close>, that is when the
  \<open>sendto\<close> raised, the sequence number and the timestamp are the ones before the call
  and nothing was delivered, while \<open>self.phase\<close> is already the phase that
  \<open>generate_audio_buffer\<close> stored for the block that was built.
\<close>

theorem counters_unchanged_on_failed_send:
  assumes "send = send_rtp_packet \<or> send = send_rtp_packet_sap"
    and "send net_ok s = Inr (False, s')"
  shows "sequence_number s' = sequence_number s \<and> timestamp s' = timestamp s
       \<and> wire s' = wire s
       \<and> \<not> isl (generate_audio_buffer s)
       \<and> phase s' = phase (snd (projr (generate_audio_buffer s)))
       \<and> phase s' = (let p = phase s + real_of_int (buffer_size s) / real_of_int (sample_rate s)
                      in if p > 1 then p - 1 else p)"
proof -
  have f: "sequence_number s' = sequence_number s \<and> timestamp s' = timestamp s
       \<and> wire s' = wire s \<and> phase s' = wrapped_phase s"
    using assms send_rtp_packet_sap_failed[of net_ok s s'] send_rtp_packet_failed[of net_ok s s']
    by (elim disjE) simp_all
  have "\<exists>p s1. generate_audio_buffer s = Inr (p, s1)"
    using assms
    by (elim disjE)
       (auto simp: send_rtp_packet_def send_rtp_packet_sap_def split: sum.splits prod.splits)
  then obtain p s1 where g: "generate_audio_buffer s = Inr (p, s1)" by blast
  have s1: "s1 = s\<lparr>phase := wrapped_phase s\<rparr>" by (rule generate_audio_buffer_state(1)[OF g])
  have "phase (snd (projr (generate_audio_buffer s))) = wrapped_phase s"
    unfolding g by (simp add: s1)
  then show ?thesis using f g by (simp add: wrapped_phase_def)
qed

theorem counters_unchanged_on_failed_send_witness:
  "fst (projr (send_rtp_packet False default_generator)) = False
   \<and> sequence_number (snd (projr (send_rtp_packet False default_generator))) = 0
   \<and> timestamp (snd (projr (send_rtp_packet False default_generator))) = 0
   \<and> wire (snd (projr (send_rtp_packet False default_generator))) = []
   \<and> phase default_generator = 0
   \<and> phase (snd (projr (send_rtp_packet False default_generator))) = 1 / 750"
proof -
  let ?S = "default_generator\<lparr>phase := wrapped_phase default_generator,
                   stdout := stdout default_generator @ [Error_sending_RTP_packet]\<rparr>"
  have run: "send_rtp_packet False default_generator = Inr (False, ?S)"
    by (simp add: send_rtp_packet_can_frame[OF can_frame_default])
  have res: "projr (send_rtp_packet False default_generator) = (False, ?S)"
    by (simp only: run sum.sel)
  have d: "sequence_number default_generator = 0" "timestamp default_generator = 0"
    "wire default_generator = []" "phase default_generator = 0"
    "buffer_size default_generator = 64" "sample_rate default_generator = 48000"
    by (simp_all add: default_generator_def init_def)
  show ?thesis
    unfolding res
    using counters_unchanged_on_failed_send[of send_rtp_packet False default_generator ?S, OF _ run]
    unfolding d by (simp add: Let_def)
qed

subsection \<open>C3: the phase accumulator\<close>

lemma generate_audio_buffer_returns:
  assumes "sample_rate s \<noteq> 0" "channels s = 2 \<longrightarrow> 0 \<le> buffer_size s"
  shows "generate_audio_buffer s
         = Inr (fst (projr (generate_audio_buffer s)), s\<lparr>phase := wrapped_phase s\<rparr>)"
  using assms
  by (auto simp: generate_audio_buffer_def to_channels_def advance_phase_def
      wrapped_phase_def Let_def)

lemma wrapped_phase_bounds:
  assumes "0 < buffer_size s" "buffer_size s \<le> sample_rate s" "0 \<le> phase s" "phase s \<le> 1"
  shows "0 \<le> wrapped_phase s" "wrapped_phase s \<le> 1"
proof -
  define d where "d = real_of_int (buffer_size s) / real_of_int (sample_rate s)"
  have r: "0 < real_of_int (sample_rate s)" using assms by simp
  have d0: "0 < d" using assms r by (simp add: d_def)
  have d1: "d \<le> 1" using assms r by (simp add: d_def divide_le_eq_1)
  have wp: "wrapped_phase s = (if phase s + d > 1 then phase s + d - 1 else phase s + d)"
    by (simp add: wrapped_phase_def d_def Let_def)
  show "0 \<le> wrapped_phase s" using assms d0 by (simp add: wp)
  show "wrapped_phase s \<le> 1" using assms d1 by (simp add: wp)
qed

text \<open>
  C3 as stated says that after every call, for any block size and sample rate, the stored
  phase is at least 0 and strictly below 1, wrapping whenever it reaches 1.0. The test
  of the source is \<open>self.phase > 1.0\<close> and the correction is one subtraction of 1.0:
  with a block of one second (48000 samples at 48000 Hz) the first call stores exactly
  1.0, and with a block of two seconds the second call stores 2.0. Both runs are exact in
  binary floating point as well.
\<close>

theorem phase_exceeds_unit_interval:
  "phase (init ''127.0.0.1'' 5004 48000 2 48000) = 0
   \<and> \<not> isl (generate_audio_buffer (init ''127.0.0.1'' 5004 48000 2 48000))
   \<and> phase (snd (projr (generate_audio_buffer (init ''127.0.0.1'' 5004 48000 2 48000)))) = 1
   \<and> \<not> phase (snd (projr (generate_audio_buffer (init ''127.0.0.1'' 5004 48000 2 48000)))) < 1
   \<and> \<not> isl (generate_blocks 2 (init ''127.0.0.1'' 5004 48000 2 96000))
   \<and> phase (projr (generate_blocks 2 (init ''127.0.0.1'' 5004 48000 2 96000))) = 2"
proof -
  let ?a = "init ''127.0.0.1'' 5004 48000 2 48000"
  let ?b = "init ''127.0.0.1'' 5004 48000 2 96000"
  have ga: "generate_audio_buffer ?a
         = Inr (fst (projr (generate_audio_buffer ?a)), ?a\<lparr>phase := wrapped_phase ?a\<rparr>)"
    by (rule generate_audio_buffer_returns) (simp_all add: init_def)
  have wa: "wrapped_phase ?a = 1" by (simp add: wrapped_phase_def init_def)
  have gb: "generate_audio_buffer ?b
         = Inr (fst (projr (generate_audio_buffer ?b)), ?b\<lparr>phase := wrapped_phase ?b\<rparr>)"
    by (rule generate_audio_buffer_returns) (simp_all add: init_def)
  have wb: "wrapped_phase ?b = 1" by (simp add: wrapped_phase_def init_def)
  let ?b1 = "?b\<lparr>phase := 1\<rparr>"
  have gb1: "generate_audio_buffer ?b1
         = Inr (fst (projr (generate_audio_buffer ?b1)), ?b1\<lparr>phase := wrapped_phase ?b1\<rparr>)"
    by (rule generate_audio_buffer_returns) (simp_all add: init_def)
  have wb1: "wrapped_phase ?b1 = 2" by (simp add: wrapped_phase_def init_def)
  have two: "generate_blocks 2 ?b = Inr (?b1\<lparr>phase := 2\<rparr>)"
    unfolding numeral_2_eq_2 generate_blocks.simps
    by (subst gb, simp add: wb, subst gb1, simp add: wb1)
  have pa: "phase (snd (projr (generate_audio_buffer ?a))) = 1"
    by (subst ga) (simp add: wa)
  have ia: "\<not> isl (generate_audio_buffer ?a)" by (subst ga) simp
  show ?thesis using pa ia two by (simp add: init_def)
qed


text \<open>
  C3 as amended: when the block is not longer than one second
  (\<open>0 < buffer_size \<le> sample_rate\<close>) and the phase starts in \<open>[0, 1]\<close>, as it does
  from 0.0, every call of \<open>generate_audio_buffer\<close> returns and after any number of calls
  the stored phase is at least 0 and at most 1; one call stores \<open>phase + block duration\<close>,
  less 1.0 exactly when that sum is greater than 1.0.
\<close>

theorem phase_stays_within_zero_and_one:
  assumes "0 < buffer_size s" "buffer_size s \<le> sample_rate s" "0 \<le> phase s" "phase s \<le> 1"
  shows "\<not> isl (generate_blocks n s)
       \<and> 0 \<le> phase (projr (generate_blocks n s))
       \<and> phase (projr (generate_blocks n s)) \<le> 1
       \<and> \<not> isl (generate_audio_buffer s)
       \<and> phase (snd (projr (generate_audio_buffer s)))
           = (if phase s + real_of_int (buffer_size s) / real_of_int (sample_rate s) > 1
              then phase s + real_of_int (buffer_size s) / real_of_int (sample_rate s) - 1
              else phase s + real_of_int (buffer_size s) / real_of_int (sample_rate s))"
proof -
  have run: "\<not> isl (generate_blocks n s)
       \<and> 0 \<le> phase (projr (generate_blocks n s))
       \<and> phase (projr (generate_blocks n s)) \<le> 1"
    using assms
  proof (induction n arbitrary: s)
    case 0
    then show ?case by simp
  next
    case (Suc n)
    let ?s1 = "s\<lparr>phase := wrapped_phase s\<rparr>"
    have g: "generate_audio_buffer s = Inr (fst (projr (generate_audio_buffer s)), ?s1)"
      by (rule generate_audio_buffer_returns) (use Suc.prems in auto)
    have step: "generate_blocks (Suc n) s = generate_blocks n ?s1"
      unfolding generate_blocks.simps by (subst g) simp
    have b: "0 \<le> phase ?s1" "phase ?s1 \<le> 1"
      using wrapped_phase_bounds[OF Suc.prems] by simp_all
    have c: "0 < buffer_size ?s1" "buffer_size ?s1 \<le> sample_rate ?s1"
      using Suc.prems by simp_all
    show ?case unfolding step by (rule Suc.IH[OF c b])
  qed
  have g: "generate_audio_buffer s
         = Inr (fst (projr (generate_audio_buffer s)), s\<lparr>phase := wrapped_phase s\<rparr>)"
    by (rule generate_audio_buffer_returns) (use assms in auto)
  have one: "\<not> isl (generate_audio_buffer s)
     \<and> phase (snd (projr (generate_audio_buffer s))) = wrapped_phase s"
    by (subst g, subst g) simp
  show ?thesis using run one by (simp add: wrapped_phase_def Let_def)
qed

theorem phase_stays_within_zero_and_one_witness:
  "0 < buffer_size default_generator
   \<and> buffer_size default_generator \<le> sample_rate default_generator
   \<and> phase default_generator = 0
   \<and> \<not> isl (generate_blocks 1000 default_generator)
   \<and> 0 \<le> phase (projr (generate_blocks 1000 default_generator))
   \<and> phase (projr (generate_blocks 1000 default_generator)) \<le> 1
   \<and> phase (snd (projr (generate_audio_buffer default_generator))) = 1 / 750"
proof -
  have d: "buffer_size default_generator = 64" "sample_rate default_generator = 48000"
    "phase default_generator = 0"
    by (simp_all add: default_generator_def init_def)
  have h: "0 < buffer_size default_generator"
    "buffer_size default_generator \<le> sample_rate default_generator"
    "0 \<le> phase default_generator" "phase default_generator \<le> 1"
    by (simp_all add: d)
  show ?thesis
    using phase_stays_within_zero_and_one[OF h, of 1000] by (simp add: d)
qed

subsection \<open>C10: channel counts other than two\<close>

lemma length_tobytes: "length (tobytes ws) = 2 * length ws"
  by (induction ws) (simp_all add: tobytes_def)

lemma length_sine_wave: "length (sine_wave s) = nat (buffer_size s)"
  by (simp add: sine_wave_def Let_def)

lemma payload_mono:
  assumes "channels s \<noteq> 2" "sample_rate s \<noteq> 0"
  shows "generate_audio_buffer s
         = Inr (tobytes (audio_int16 (sine_wave s)), s\<lparr>phase := wrapped_phase s\<rparr>)"
  using assms
  by (simp add: generate_audio_buffer_def to_channels_def advance_phase_def
      wrapped_phase_def Let_def)

lemma send_rtp_packet_sap_sent:
  assumes "send_rtp_packet_sap net_ok s = Inr (True, s')"
  shows "wire s' = wire s @ [((target_ip s, target_port s),
            projr (create_rtp_header s) @ fst (projr (generate_audio_buffer s)))]"
    and "sequence_number s' = sequence_number s + 1"
    and "timestamp s' = timestamp s + buffer_size s"
proof -
  from assms obtain h p s1 where h: "create_rtp_header s = Inr h"
    and g: "generate_audio_buffer s = Inr (p, s1)"
    and r: "wire s' = wire s1 @ [((target_ip s1, target_port s1), h @ p)]
          \<and> sequence_number s' = sequence_number s1 + 1
          \<and> timestamp s' = timestamp s1 + buffer_size s1"
    by (auto simp: send_rtp_packet_sap_def Let_def split: sum.splits if_splits prod.splits)
  have s1: "s1 = s\<lparr>phase := wrapped_phase s\<rparr>" by (rule generate_audio_buffer_state(1)[OF g])
  from r show "wire s' = wire s @ [((target_ip s, target_port s),
            projr (create_rtp_header s) @ fst (projr (generate_audio_buffer s)))]"
    "sequence_number s' = sequence_number s + 1"
    "timestamp s' = timestamp s + buffer_size s"
    by (simp_all add: s1 h g)
qed


lemma send_rtp_packet_sent:
  assumes "send_rtp_packet net_ok s = Inr (True, s')"
  shows "wire s' = wire s @ [((target_ip s, target_port s),
            projr (create_rtp_header s) @ fst (projr (generate_audio_buffer s)))]"
    and "sequence_number s' = sequence_number s + 1"
    and "timestamp s' = timestamp s + buffer_size s * channels s"
proof -
  from assms obtain h p s1 where h: "create_rtp_header s = Inr h"
    and g: "generate_audio_buffer s = Inr (p, s1)"
    and s': "s' = s1\<lparr>wire := wire s1 @ [((target_ip s1, target_port s1), h @ p)],
                   sequence_number := sequence_number s1 + 1,
                   timestamp := timestamp s1 + buffer_size s1 * channels s1\<rparr>"
    by (elim send_rtp_packet_cases) blast
  have s1: "s1 = s\<lparr>phase := wrapped_phase s\<rparr>" by (rule generate_audio_buffer_state(1)[OF g])
  show "wire s' = wire s @ [((target_ip s, target_port s),
            projr (create_rtp_header s) @ fst (projr (generate_audio_buffer s)))]"
    "sequence_number s' = sequence_number s + 1"
    "timestamp s' = timestamp s + buffer_size s * channels s"
    unfolding s' by (simp_all add: s1 h g)
qed

lemma sent_header_length:
  assumes "send_rtp_packet net_ok s = Inr (ok, s') \<or> send_rtp_packet_sap net_ok s = Inr (ok, s')"
  shows "length (projr (create_rtp_header s)) = 12"
proof -
  from assms obtain h where h: "create_rtp_header s = Inr h"
    by (auto simp: send_rtp_packet_def send_rtp_packet_sap_def split: sum.splits)
  show ?thesis using seq_field_header(2)[OF h] by (simp add: h)
qed

text \<open>
  C10: for every channel count other than 2 (3 and more included), with a block size that
  is not negative and a sample rate that is not zero, \<open>generate_audio_buffer\<close> returns
  the \<open>buffer_size\<close> samples of the sine wave, converted one by one and not interleaved,
  in \<open>buffer_size * 2\<close> bytes; a packet sent by either \<open>send_rtp_packet\<close> is then
  \<open>12 + buffer_size * 2\<close> bytes long, whatever the channel count.
\<close>

theorem other_channel_counts_take_mono_path:
  assumes "channels s \<noteq> 2" "0 \<le> buffer_size s" "sample_rate s \<noteq> 0"
  shows "\<not> isl (generate_audio_buffer s)
       \<and> fst (projr (generate_audio_buffer s)) = tobytes (audio_int16 (sine_wave s))
       \<and> int (length (sine_wave s)) = buffer_size s
       \<and> int (length (fst (projr (generate_audio_buffer s)))) = buffer_size s * 2
       \<and> (\<forall>net_ok s'. send_rtp_packet net_ok s = Inr (True, s')
             \<longrightarrow> int (length (snd (last (wire s')))) = 12 + buffer_size s * 2)
       \<and> (\<forall>net_ok s'. send_rtp_packet_sap net_ok s = Inr (True, s')
             \<longrightarrow> int (length (snd (last (wire s')))) = 12 + buffer_size s * 2)"
proof -
  have g: "generate_audio_buffer s
         = Inr (tobytes (audio_int16 (sine_wave s)), s\<lparr>phase := wrapped_phase s\<rparr>)"
    by (rule payload_mono[OF assms(1,3)])
  have n: "int (length (sine_wave s)) = buffer_size s"
    using assms(2) by (simp add: length_sine_wave)
  have l: "int (length (fst (projr (generate_audio_buffer s)))) = buffer_size s * 2"
    using n by (simp add: g length_tobytes audio_int16_def)
  have a: "int (length (snd (last (wire s')))) = 12 + buffer_size s * 2"
    if "send_rtp_packet net_ok s = Inr (True, s')" for net_ok s'
    using send_rtp_packet_sent(1)[OF that] sent_header_length[of net_ok s True s'] that l
    by simp
  have b: "int (length (snd (last (wire s')))) = 12 + buffer_size s * 2"
    if "send_rtp_packet_sap net_ok s = Inr (True, s')" for net_ok s'
    using send_rtp_packet_sap_sent(1)[OF that] sent_header_length[of net_ok s True s'] that l
    by simp
  show ?thesis using g n l a b by simp
qed

theorem other_channel_counts_take_mono_path_witness:
  "channels (init ''127.0.0.1'' 5004 48000 3 64) = 3
   \<and> buffer_size (init ''127.0.0.1'' 5004 48000 3 64) = 64
   \<and> \<not> isl (generate_audio_buffer (init ''127.0.0.1'' 5004 48000 3 64))
   \<and> length (fst (projr (generate_audio_buffer (init ''127.0.0.1'' 5004 48000 3 64)))) = 128
   \<and> fst (projr (send_rtp_packet True (init ''127.0.0.1'' 5004 48000 3 64)))
   \<and> length (snd (last (wire (snd (projr
         (send_rtp_packet True (init ''127.0.0.1'' 5004 48000 3 64))))))) = 140"
proof -
  let ?s = "init ''127.0.0.1'' 5004 48000 3 64"
  let ?S = "?s\<lparr>phase := wrapped_phase ?s,
                wire := wire ?s @ [((target_ip ?s, target_port ?s),
                           projr (create_rtp_header ?s) @ fst (projr (generate_audio_buffer ?s)))],
                sequence_number := sequence_number ?s + 1,
                timestamp := timestamp ?s + buffer_size ?s * channels ?s\<rparr>"
  have d: "channels ?s = 3" "buffer_size ?s = 64" "sample_rate ?s = 48000"
    by (simp_all add: init_def)
  have h: "channels ?s \<noteq> 2" "0 \<le> buffer_size ?s" "sample_rate ?s \<noteq> 0"
    by (simp_all add: d)
  have cf: "can_frame ?s" by (simp add: can_frame_def header_packs_def init_def)
  have so: "socket_open ?s" by (simp add: init_def)
  have run: "send_rtp_packet True ?s = Inr (True, ?S)"
    by (simp add: send_rtp_packet_can_frame[OF cf] so)
  have res: "projr (send_rtp_packet True ?s) = (True, ?S)" by (simp only: run sum.sel)
  note t = other_channel_counts_take_mono_path[OF h]
  from t have t1: "\<not> isl (generate_audio_buffer ?s)" by blast
  from t have "int (length (fst (projr (generate_audio_buffer ?s)))) = buffer_size ?s * 2"
    by blast
  then have t2: "length (fst (projr (generate_audio_buffer ?s))) = 128"
    unfolding d by simp
  from t run have "int (length (snd (last (wire ?S)))) = 12 + buffer_size ?s * 2" by blast
  then have t3: "length (snd (last (wire ?S))) = 140" unfolding d by simp
  show ?thesis unfolding res using d t1 t2 t3 by simp
qed

subsection \<open>Binary64 products against dyadic bounds\<close>

lemma round_half_even_le:
  assumes "y \<le> real_of_int n"
  shows "round_half_even y \<le> n"
proof -
  have f: "\<lfloor>y\<rfloor> \<le> n" using assms by (simp add: floor_le_iff)
  show ?thesis
  proof (cases "y - real_of_int \<lfloor>y\<rfloor> < 1 / 2")
    case True
    then show ?thesis using f by (simp add: round_half_even_def Let_def)
  next
    case False
    then have "real_of_int \<lfloor>y\<rfloor> < y" by simp
    then have "real_of_int \<lfloor>y\<rfloor> < real_of_int n" using assms by linarith
    then have "\<lfloor>y\<rfloor> + 1 \<le> n" by simp
    then show ?thesis using f by (simp add: round_half_even_def Let_def)
  qed
qed

lemma round_half_even_ge:
  assumes "real_of_int n \<le> y"
  shows "n \<le> round_half_even y"
proof -
  have f: "n \<le> \<lfloor>y\<rfloor>" using assms by (simp add: le_floor_iff)
  then show ?thesis by (simp add: round_half_even_def Let_def)
qed

lemma ulp_exponent_le:
  assumes "x \<noteq> 0" "\<bar>x\<bar> * 2 ^ k < 2 ^ 53" "k \<le> 1074"
  shows "ulp_exponent x \<le> - int k"
proof -
  have pos: "0 < \<bar>x\<bar>" using assms(1) by simp
  have "\<bar>x\<bar> < 2 ^ 53 / 2 ^ k" using assms(2) by (simp add: field_simps)
  also have "\<dots> = 2 powr (53 - real k)"
    by (simp add: powr_diff powr_realpow)
  finally have "log 2 \<bar>x\<bar> < 53 - real k"
    using pos by (simp add: log_less_iff)
  then have "\<lfloor>log 2 \<bar>x\<bar>\<rfloor> < 53 - int k"
    by (simp add: floor_less_iff)
  then show ?thesis using assms(3) by (simp add: ulp_exponent_def)
qed

lemma ulp_power:
  assumes "x \<noteq> 0" "\<bar>x\<bar> * 2 ^ k < 2 ^ 53" "k \<le> 1074"
  obtains j :: nat where "2 powi ulp_exponent x = 1 / (2 ^ (k + j) :: real)"
proof -
  have e: "ulp_exponent x \<le> - int k" by (rule ulp_exponent_le[OF assms])
  define j where "j = nat (- int k - ulp_exponent x)"
  have "ulp_exponent x = - int (k + j)" using e by (simp add: j_def)
  then have "2 powi ulp_exponent x = 1 / (2 ^ (k + j) :: real)"
    by (simp only: power_int_minus power_int_of_nat) (simp add: field_simps)
  then show ?thesis by (rule that)
qed

lemma binary64_le:
  assumes "x \<le> real_of_int b / 2 ^ k" "\<bar>x\<bar> * 2 ^ k < 2 ^ 53" "k \<le> 1074"
  shows "binary64 x \<le> real_of_int b / 2 ^ k"
proof (cases "x = 0")
  case True
  then show ?thesis using assms(1) by (simp add: binary64_def)
next
  case False
  from ulp_power[OF False assms(2,3)] obtain j :: nat
    where u: "2 powi ulp_exponent x = 1 / (2 ^ (k + j) :: real)" .
  have "x * 2 ^ (k + j) \<le> real_of_int b / 2 ^ k * 2 ^ (k + j)"
    by (rule mult_right_mono[OF assms(1)]) simp
  also have "\<dots> = real_of_int (b * 2 ^ j)" by (simp add: power_add)
  finally have "round_half_even (x * 2 ^ (k + j)) \<le> b * 2 ^ j"
    by (rule round_half_even_le)
  then have "real_of_int (round_half_even (x * 2 ^ (k + j))) \<le> real_of_int (b * 2 ^ j)"
    by (simp only: of_int_le_iff)
  then have "real_of_int (round_half_even (x * 2 ^ (k + j))) / 2 ^ (k + j)
             \<le> real_of_int (b * 2 ^ j) / 2 ^ (k + j)"
    by (simp add: divide_right_mono)
  also have "real_of_int (b * 2 ^ j) / 2 ^ (k + j) = real_of_int b / 2 ^ k"
    by (simp add: power_add)
  finally show ?thesis using False by (simp add: binary64_def u)
qed

lemma binary64_ge:
  assumes "real_of_int b / 2 ^ k \<le> x" "\<bar>x\<bar> * 2 ^ k < 2 ^ 53" "k \<le> 1074"
  shows "real_of_int b / 2 ^ k \<le> binary64 x"
proof (cases "x = 0")
  case True
  then show ?thesis using assms(1) by (simp add: binary64_def)
next
  case False
  from ulp_power[OF False assms(2,3)] obtain j :: nat
    where u: "2 powi ulp_exponent x = 1 / (2 ^ (k + j) :: real)" .
  have "real_of_int b / 2 ^ k * 2 ^ (k + j) \<le> x * 2 ^ (k + j)"
    by (rule mult_right_mono[OF assms(1)]) simp
  moreover have "real_of_int b / 2 ^ k * 2 ^ (k + j) = real_of_int (b * 2 ^ j)"
    by (simp add: power_add)
  ultimately have "real_of_int (b * 2 ^ j) \<le> x * 2 ^ (k + j)" by simp
  then have "b * 2 ^ j \<le> round_half_even (x * 2 ^ (k + j))"
    by (rule round_half_even_ge)
  then have "real_of_int (b * 2 ^ j) \<le> real_of_int (round_half_even (x * 2 ^ (k + j)))"
    by (simp only: of_int_le_iff)
  then have "real_of_int (b * 2 ^ j) / 2 ^ (k + j)
             \<le> real_of_int (round_half_even (x * 2 ^ (k + j))) / 2 ^ (k + j)"
    by (simp add: divide_right_mono)
  moreover have "real_of_int (b * 2 ^ j) / 2 ^ (k + j) = real_of_int b / 2 ^ k"
    by (simp add: power_add)
  ultimately show ?thesis using False by (simp add: binary64_def u)
qed

lemma binary64_exact:
  assumes "\<bar>real_of_int b\<bar> < 2 ^ 53" "k \<le> 1074"
  shows "binary64 (real_of_int b / 2 ^ k) = real_of_int b / 2 ^ k"
proof -
  have "\<bar>real_of_int b / 2 ^ k\<bar> * 2 ^ k < 2 ^ 53" using assms(1) by simp
  then show ?thesis
    using binary64_le[of "real_of_int b / 2 ^ k" b k] binary64_ge[of b k "real_of_int b / 2 ^ k"]
      assms(2)
    by (simp add: order_antisym)
qed

lemma fmul_32767_bounded:
  assumes "\<bar>a\<bar> \<le> 1"
  shows "- 32767 \<le> fmul a 32767" "fmul a 32767 \<le> 32767"
proof -
  have m: "\<bar>a * 32767\<bar> \<le> 32767" using assms by (simp add: abs_mult)
  then have r: "\<bar>a * 32767\<bar> * 2 ^ 0 < 2 ^ 53" by simp
  have "real_of_int (- 32767) / 2 ^ 0 \<le> a * 32767" using m by simp
  from binary64_ge[OF this r] show "- 32767 \<le> fmul a 32767" by (simp add: fmul_def)
  have "a * 32767 \<le> real_of_int 32767 / 2 ^ 0" using m by simp
  from binary64_le[OF this r] show "fmul a 32767 \<le> 32767" by (simp add: fmul_def)
qed

lemma fmul_0_7_bounded:
  assumes "\<bar>a\<bar> \<le> 1"
  shows "\<bar>fmul a float_0_7\<bar> \<le> 1"
proof -
  have c: "0 \<le> float_0_7" "float_0_7 \<le> 1" by (simp_all add: float_0_7_def)
  have "\<bar>a * float_0_7\<bar> \<le> 1 * 1"
    unfolding abs_mult by (rule mult_mono) (use assms c in simp_all)
  then have m: "\<bar>a * float_0_7\<bar> \<le> 1" by simp
  then have r: "\<bar>a * float_0_7\<bar> * 2 ^ 0 < 2 ^ 53" by simp
  have "real_of_int (- 1) / 2 ^ 0 \<le> a * float_0_7" using m by simp
  from binary64_ge[OF this r] have lo: "- 1 \<le> fmul a float_0_7" by (simp add: fmul_def)
  have "a * float_0_7 \<le> real_of_int 1 / 2 ^ 0" using m by simp
  from binary64_le[OF this r] have hi: "fmul a float_0_7 \<le> 1" by (simp add: fmul_def)
  show ?thesis using lo hi by simp
qed

lemma binary64_at_exponent:
  assumes "2 powi n \<le> \<bar>x\<bar>" "\<bar>x\<bar> < 2 powi (n + 1)" "- 1022 \<le> n"
  shows "binary64 x = real_of_int (round_half_even (x / 2 powi (n - 52))) * 2 powi (n - 52)"
proof -
  have pos: "0 < \<bar>x\<bar>"
    using assms(1) by (rule less_le_trans[rotated]) simp
  have p: "(2::real) powr real_of_int m = 2 powi m" for m
    by (rule powr_real_of_int') simp_all
  have "real_of_int n \<le> log 2 \<bar>x\<bar>"
    using pos assms(1) by (simp add: le_log_iff p)
  moreover have "log 2 \<bar>x\<bar> < real_of_int (n + 1)"
    using assms(2) by (simp only: log_less_iff[OF _ pos] p)
  ultimately have "\<lfloor>log 2 \<bar>x\<bar>\<rfloor> = n" by (simp add: floor_eq_iff)
  then have "ulp_exponent x = n - 52" using assms(3) by (simp add: ulp_exponent_def)
  moreover have "x \<noteq> 0" using pos by simp
  ultimately show ?thesis by (simp add: binary64_def)
qed

text \<open>
  Two products whose exact value lies just below an integer and whose binary64 value is
  the integer: the conversion emits 3 and 17, where the exact products would give 2 and 16.
\<close>

lemma fmul_rounds_to_three: "trunc (fmul (105556337590275 / 2 ^ 60) 32767) = 3"
proof -
  let ?x = "105556337590275 / 2 ^ 60 * 32767 :: real"
  have "binary64 ?x = real_of_int (round_half_even (?x / 2 powi (1 - 52))) * 2 powi (1 - 52)"
    by (rule binary64_at_exponent) simp_all
  also have "round_half_even (?x / 2 powi (1 - 52)) = 6755399441055744"
    by (simp add: round_half_even_def Let_def)
  finally have "binary64 ?x = 3" by simp
  then show ?thesis by (simp add: fmul_def trunc_def)
qed

lemma fmul_twice_rounds_to_seventeen:
  "trunc (fmul (fmul (6836029482036857 / 2 ^ 63) float_0_7) 32767) = 17"
proof -
  let ?q = "6836029482036857 / 2 ^ 63 * float_0_7 :: real"
  have "binary64 ?q
        = real_of_int (round_half_even (?q / 2 powi (- 11 - 52))) * 2 powi (- 11 - 52)"
    by (rule binary64_at_exponent) (simp_all add: float_0_7_def)
  also have "round_half_even (?q / 2 powi (- 11 - 52)) = 4785220637425800"
    by (simp add: round_half_even_def Let_def float_0_7_def)
  finally have q: "fmul (6836029482036857 / 2 ^ 63) float_0_7 = 4785220637425800 / 2 ^ 63"
    by (simp add: fmul_def)
  let ?z = "4785220637425800 / 2 ^ 63 * 32767 :: real"
  have "binary64 ?z = real_of_int (round_half_even (?z / 2 powi (4 - 52))) * 2 powi (4 - 52)"
    by (rule binary64_at_exponent) simp_all
  also have "round_half_even (?z / 2 powi (4 - 52)) = 4785074604081152"
    by (simp add: round_half_even_def Let_def)
  finally have "binary64 ?z = 17" by simp
  then have "fmul (fmul (6836029482036857 / 2 ^ 63) float_0_7) 32767 = 17"
    unfolding q by (simp only: fmul_def)
  then show ?thesis by (simp add: trunc_def)
qed

subsection \<open>The samples of a payload\<close>

lemma cat_bytes: "word_cat (ucast (drop_bit 8 w) :: 8 word) (ucast w :: 8 word) = (w :: 16 word)"
  by (rule bit_word_eqI) (auto simp: bit_simps)

lemma sint_astype_int16:
  assumes "- 32768 \<le> trunc x" "trunc x \<le> 32767"
  shows "sint (astype_int16 x) = trunc x"
  using assms by (simp add: astype_int16_def signed_of_int signed_take_bit_int_eq_self)

lemma tobytes_nth:
  assumes "k < length ws"
  shows "tobytes ws ! (2 * k) = ucast (ws ! k)"
    and "tobytes ws ! (2 * k + 1) = ucast (drop_bit 8 (ws ! k))"
  using assms
proof (induction ws arbitrary: k)
  case Nil
  { case 1 then show ?case by simp }
  { case 2 then show ?case by simp }
next
  case (Cons w ws)
  { case 1 then show ?case using Cons.IH(1)[of "k - 1"] by (cases k) (simp_all add: tobytes_def) }
  { case 2 then show ?case using Cons.IH(2)[of "k - 1"] by (cases k) (simp_all add: tobytes_def) }
qed

lemma pcm_word_tobytes:
  assumes "k < length ws"
  shows "pcm_word (tobytes ws) k = ws ! k"
  unfolding pcm_word_def tobytes_nth(1)[OF assms] tobytes_nth(2)[OF assms]
  by (rule cat_bytes)

lemma trunc_bounds:
  assumes "- 32767 \<le> x" "x \<le> 32767"
  shows "- 32767 \<le> trunc x" "trunc x \<le> 32767"
proof -
  show "- 32767 \<le> trunc x"
    using assms by (auto simp: trunc_def le_floor_iff le_ceiling_iff intro: order_trans)
  show "trunc x \<le> 32767"
    using assms by (auto simp: trunc_def floor_le_iff ceiling_le_iff)
qed

lemma sine_wave_bounded:
  assumes "0 \<le> amplitude s" "amplitude s \<le> 1" "x \<in> set (sine_wave s)"
  shows "\<bar>x\<bar> \<le> 1"
proof -
  from assms(3) obtain t where x: "x = amplitude s * sin t"
    by (auto simp: sine_wave_def Let_def)
  have "\<bar>x\<bar> = amplitude s * \<bar>sin t\<bar>" using assms(1) by (simp add: x abs_mult)
  also have "\<dots> \<le> 1 * 1"
    by (rule mult_mono) (use assms in simp_all)
  finally show ?thesis by simp
qed

lemma to_channels_bounded:
  assumes "\<forall>a \<in> set audio. \<bar>a\<bar> \<le> 1" "to_channels s audio = Inr xs" "x \<in> set xs"
  shows "\<bar>x\<bar> \<le> 1"
proof (cases "channels s = 2")
  case True
  with assms(2,3) obtain a where a: "a \<in> set audio" and x: "x = a \<or> x = fmul a float_0_7"
    by (auto simp: to_channels_def split: if_splits)
  have "\<bar>a\<bar> \<le> 1" using assms(1) a by blast
  then show ?thesis using x fmul_0_7_bounded[of a] by blast
next
  case False
  with assms(2,3) have "x \<in> set audio" by (auto simp: to_channels_def)
  then show ?thesis using assms(1) by blast
qed

lemma sine_wave_nth:
  assumes "int k < buffer_size s"
  shows "sine_wave s ! k
         = amplitude s * sin (2 * pi * frequency s * (real k / real_of_int (sample_rate s) + phase s))"
  using assms by (simp add: sine_wave_def Let_def)

lemma encode_audio_Inr:
  assumes "encode_audio s audio = Inr payload"
  shows "to_channels s audio = Inr (projr (to_channels s audio))"
    and "payload = tobytes (audio_int16 (projr (to_channels s audio)))"
  using assms by (auto simp: encode_audio_def split: sum.splits)

lemma generate_audio_buffer_encode:
  assumes "generate_audio_buffer s = Inr (payload, s')"
  shows "encode_audio s (sine_wave s) = Inr payload"
  using assms
  by (auto simp: generate_audio_buffer_def encode_audio_def Let_def split: sum.splits)

lemma pcm_word_encoded:
  assumes "encode_audio s audio = Inr payload"
    and "k < length (projr (to_channels s audio))"
  shows "pcm_word payload k = astype_int16 (fmul (projr (to_channels s audio) ! k) 32767)"
proof -
  have "pcm_word payload k = audio_int16 (projr (to_channels s audio)) ! k"
    unfolding encode_audio_Inr(2)[OF assms(1)]
    by (rule pcm_word_tobytes) (simp add: audio_int16_def assms(2))
  then show ?thesis using assms(2) by (simp add: audio_int16_def)
qed

lemma pcm_sample_encoded:
  assumes "encode_audio s audio = Inr payload"
    and "\<forall>a \<in> set audio. \<bar>a\<bar> \<le> 1"
    and "k < length (projr (to_channels s audio))"
  shows "pcm_sample payload k = trunc (fmul (projr (to_channels s audio) ! k) 32767)"
    and "- 32767 \<le> pcm_sample payload k" and "pcm_sample payload k \<le> 32767"
proof -
  let ?xs = "projr (to_channels s audio)"
  have "\<bar>?xs ! k\<bar> \<le> 1"
    by (rule to_channels_bounded[OF assms(2) encode_audio_Inr(1)[OF assms(1)]])
       (simp add: assms(3))
  note b = trunc_bounds[OF fmul_32767_bounded[OF this]]
  have v: "pcm_sample payload k = trunc (fmul (?xs ! k) 32767)"
    unfolding pcm_sample_def pcm_word_encoded[OF assms(1,3)]
    by (rule sint_astype_int16) (use b in simp_all)
  show "pcm_sample payload k = trunc (fmul (?xs ! k) 32767)" by (rule v)
  show "- 32767 \<le> pcm_sample payload k" "pcm_sample payload k \<le> 32767"
    using b by (simp_all add: v)
qed

subsection \<open>C5: conversion to 16-bit PCM\<close>

lemma peak_probe_fields:
  "sample_rate (peak_probe c a) = 4" "buffer_size (peak_probe c a) = 4"
  "channels (peak_probe c a) = c" "frequency (peak_probe c a) = 1"
  "phase (peak_probe c a) = 0" "amplitude (peak_probe c a) = max 0 (min 1 a)"
  by (simp_all add: peak_probe_def set_amplitude_def set_frequency_def init_def Let_def)

lemma peak_probe_wave: "sine_wave (peak_probe c a) ! 1 = max 0 (min 1 a)"
proof -
  have "sine_wave (peak_probe c a) ! 1
        = amplitude (peak_probe c a) * sin (2 * pi * frequency (peak_probe c a)
            * (real 1 / real_of_int (sample_rate (peak_probe c a)) + phase (peak_probe c a)))"
    by (rule sine_wave_nth) (simp add: peak_probe_fields)
  also have "\<dots> = max 0 (min 1 a) * sin (pi / 2)"
    by (simp add: peak_probe_fields)
  finally show ?thesis by simp
qed

lemma peak_probe_generates:
  "generate_audio_buffer (peak_probe c a)
   = Inr (fst (projr (generate_audio_buffer (peak_probe c a))),
          (peak_probe c a)\<lparr>phase := wrapped_phase (peak_probe c a)\<rparr>)"
  by (rule generate_audio_buffer_returns) (simp_all add: peak_probe_fields)

lemma peak_probe_encodes:
  "encode_audio (peak_probe c a) (sine_wave (peak_probe c a))
   = Inr (fst (projr (generate_audio_buffer (peak_probe c a))))"
  by (rule generate_audio_buffer_encode[OF peak_probe_generates])

lemma peak_probe_bounded: "\<forall>x \<in> set (sine_wave (peak_probe c a)). \<bar>x\<bar> \<le> 1"
  using sine_wave_bounded[of "peak_probe c a"] by (simp add: peak_probe_fields)

lemma peak_probe_mono_samples:
  "projr (to_channels (peak_probe 1 a) (sine_wave (peak_probe 1 a))) = sine_wave (peak_probe 1 a)"
  by (simp add: to_channels_def peak_probe_fields)

lemma half_scale_exact: "fmul (1 / 2) 32767 = 32767 / 2" "fmul (- (1 / 2)) 32767 = - (32767 / 2)"
  using binary64_exact[of 32767 1] binary64_exact[of "- 32767" 1]
  by (simp_all add: fmul_def)

text \<open>
  C5 as stated says that a sample is converted as \<open>round(sample * 32767)\<close>, to the
  nearest integer. The source converts with \<open>astype(np.int16)\<close>, which drops the
  fraction: at amplitude 0.5 the peak sample is 0.5, \<open>0.5 * 32767 = 16383.5\<close>, and the
  emitted value is 16383 where rounding gives 16384.
\<close>

theorem conversion_is_not_rounding:
  "amplitude (peak_probe 1 (1 / 2)) = 1 / 2
   \<and> \<not> isl (generate_audio_buffer (peak_probe 1 (1 / 2)))
   \<and> sine_wave (peak_probe 1 (1 / 2)) ! 1 = 1 / 2
   \<and> round (sine_wave (peak_probe 1 (1 / 2)) ! 1 * 32767) = 16384
   \<and> pcm_sample (fst (projr (generate_audio_buffer (peak_probe 1 (1 / 2))))) 1 = 16383"
proof -
  let ?s = "peak_probe 1 (1 / 2)"
  have a: "amplitude ?s = 1 / 2" by (simp add: peak_probe_fields)
  have w: "sine_wave ?s ! 1 = 1 / 2" unfolding peak_probe_wave by simp
  have n: "1 < length (projr (to_channels ?s (sine_wave ?s)))"
    by (simp add: peak_probe_mono_samples length_sine_wave peak_probe_fields)
  have "pcm_sample (fst (projr (generate_audio_buffer ?s))) 1
        = trunc (fmul (projr (to_channels ?s (sine_wave ?s)) ! 1) 32767)"
    by (rule pcm_sample_encoded(1)[OF peak_probe_encodes peak_probe_bounded n])
  also have "\<dots> = trunc (32767 / 2)"
    unfolding peak_probe_mono_samples w half_scale_exact ..
  also have "\<dots> = 16383" by (simp add: trunc_def)
  finally have p: "pcm_sample (fst (projr (generate_audio_buffer ?s))) 1 = 16383" .
  have r: "round (sine_wave ?s ! 1 * 32767) = 16384" unfolding w by (simp add: round_def)
  have i: "\<not> isl (generate_audio_buffer ?s)" by (subst peak_probe_generates) simp
  show ?thesis by (intro conjI a w r p i)
qed

text \<open>
  C5 as amended: every sample value of a block, whatever array line 80 produced, is
  emitted as the binary64 product \<open>sample * 32767\<close> with the fraction dropped, as a
  signed 16-bit little-endian value in two bytes; and when no sample exceeds 1 in
  magnitude, which an amplitude in \<open>[0, 1]\<close> ensures, every emitted value lies between
  -32767 and 32767. The payload of \<open>generate_audio_buffer\<close> is that conversion of its
  sine array.
\<close>

theorem samples_truncated_and_in_range:
  assumes "encode_audio s audio = Inr payload" "\<forall>a \<in> set audio. \<bar>a\<bar> \<le> 1"
  shows "\<not> isl (to_channels s audio)
       \<and> length payload = 2 * length (projr (to_channels s audio))
       \<and> (\<forall>k < length (projr (to_channels s audio)).
             pcm_sample payload k = trunc (fmul (projr (to_channels s audio) ! k) 32767)
           \<and> - 32767 \<le> pcm_sample payload k \<and> pcm_sample payload k \<le> 32767)
       \<and> (\<forall>p s'. generate_audio_buffer s = Inr (p, s') \<longrightarrow> encode_audio s (sine_wave s) = Inr p)
       \<and> (0 \<le> amplitude s \<and> amplitude s \<le> 1 \<longrightarrow> (\<forall>a \<in> set (sine_wave s). \<bar>a\<bar> \<le> 1))"
proof -
  have i: "\<not> isl (to_channels s audio)"
    by (subst encode_audio_Inr(1)[OF assms(1)]) simp
  have l: "length payload = 2 * length (projr (to_channels s audio))"
    unfolding encode_audio_Inr(2)[OF assms(1)] by (simp add: length_tobytes audio_int16_def)
  have g: "\<forall>p s'. generate_audio_buffer s = Inr (p, s') \<longrightarrow> encode_audio s (sine_wave s) = Inr p"
    using generate_audio_buffer_encode by blast
  have b: "0 \<le> amplitude s \<and> amplitude s \<le> 1 \<longrightarrow> (\<forall>a \<in> set (sine_wave s). \<bar>a\<bar> \<le> 1)"
    using sine_wave_bounded by blast
  show ?thesis
    using i l g b pcm_sample_encoded[OF assms] by blast
qed

theorem samples_truncated_and_in_range_witness:
  "\<not> isl (encode_audio (peak_probe 1 (1 / 2)) [0, 1 / 2, 0, - (1 / 2)])
   \<and> length (projr (encode_audio (peak_probe 1 (1 / 2)) [0, 1 / 2, 0, - (1 / 2)])) = 8
   \<and> pcm_sample (projr (encode_audio (peak_probe 1 (1 / 2)) [0, 1 / 2, 0, - (1 / 2)])) 1 = 16383
   \<and> pcm_sample (projr (encode_audio (peak_probe 1 (1 / 2)) [0, 1 / 2, 0, - (1 / 2)])) 3
       = - 16383"
proof -
  let ?s = "peak_probe 1 (1 / 2)"
  let ?a = "[0, 1 / 2, 0, - (1 / 2)] :: real list"
  have t: "to_channels ?s ?a = Inr ?a" by (simp add: to_channels_def peak_probe_fields)
  have e: "encode_audio ?s ?a = Inr (projr (encode_audio ?s ?a))"
    by (simp add: encode_audio_def t)
  have h: "\<forall>a \<in> set ?a. \<bar>a\<bar> \<le> 1" by simp
  have xs: "projr (to_channels ?s ?a) = ?a" by (simp add: t)
  note th = samples_truncated_and_in_range[OF e h]
  from th have l: "length (projr (encode_audio ?s ?a)) = 2 * length (projr (to_channels ?s ?a))"
    by blast
  from th have q: "\<forall>k < length (projr (to_channels ?s ?a)).
      pcm_sample (projr (encode_audio ?s ?a)) k
        = trunc (fmul (projr (to_channels ?s ?a) ! k) 32767)"
    by blast
  have k1: "(1::nat) < length (projr (to_channels ?s ?a))"
    and k3: "(3::nat) < length (projr (to_channels ?s ?a))" unfolding xs by simp_all
  have "pcm_sample (projr (encode_audio ?s ?a)) 1 = trunc (fmul (?a ! 1) 32767)"
    using q[rule_format, OF k1] unfolding xs .
  also have "?a ! 1 = 1 / 2" by simp
  also have "trunc (fmul (1 / 2) 32767) = 16383" unfolding half_scale_exact by (simp add: trunc_def)
  finally have p1: "pcm_sample (projr (encode_audio ?s ?a)) 1 = 16383" .
  have "pcm_sample (projr (encode_audio ?s ?a)) 3 = trunc (fmul (?a ! 3) 32767)"
    using q[rule_format, OF k3] unfolding xs .
  also have "?a ! 3 = - (1 / 2)" by (simp add: numeral_3_eq_3)
  also have "trunc (fmul (- (1 / 2)) 32767) = - 16383"
    unfolding half_scale_exact by (simp add: trunc_def)
  finally have p3: "pcm_sample (projr (encode_audio ?s ?a)) 3 = - 16383" .
  have i: "\<not> isl (encode_audio ?s ?a)" by (subst e) simp
  have l8: "length (projr (encode_audio ?s ?a)) = 8" using l unfolding xs by simp
  show ?thesis by (intro conjI i l8 p1 p3)
qed

subsection \<open>C4: the two channels\<close>

lemma interleave_nth:
  assumes "i < length xs"
  shows "concat (map (\<lambda>a. [a, f a]) xs) ! (2 * i) = xs ! i"
    and "concat (map (\<lambda>a. [a, f a]) xs) ! (2 * i + 1) = f (xs ! i)"
  using assms
proof (induction xs arbitrary: i)
  case Nil
  { case 1 then show ?case by simp }
  { case 2 then show ?case by simp }
next
  case (Cons x xs)
  { case 1 then show ?case using Cons.IH(1)[of "i - 1"] by (cases i) simp_all }
  { case 2 then show ?case using Cons.IH(2)[of "i - 1"] by (cases i) simp_all }
qed

lemma length_interleave: "length (concat (map (\<lambda>a. [a, f a]) xs)) = 2 * length xs"
  by (induction xs) simp_all

lemma stereo_samples:
  assumes "channels s = 2" "encode_audio s audio = Inr payload"
  shows "projr (to_channels s audio) = concat (map (\<lambda>a. [a, fmul a float_0_7]) audio)"
  using assms
  by (auto simp: encode_audio_def to_channels_def split: sum.splits if_splits)

lemma stereo_pcm:
  assumes "channels s = 2" "encode_audio s audio = Inr payload"
    "\<forall>a \<in> set audio. \<bar>a\<bar> \<le> 1" "i < length audio"
  shows "pcm_sample payload (2 * i) = trunc (fmul (audio ! i) 32767)"
    and "pcm_sample payload (2 * i + 1) = trunc (fmul (fmul (audio ! i) float_0_7) 32767)"
proof -
  let ?xs = "projr (to_channels s audio)"
  have xs: "?xs = concat (map (\<lambda>a. [a, fmul a float_0_7]) audio)"
    by (rule stereo_samples[OF assms(1,2)])
  have l: "length ?xs = 2 * length audio" unfolding xs by (rule length_interleave)
  have k0: "2 * i < length ?xs" and k1: "2 * i + 1 < length ?xs" using assms(4) l by simp_all
  show "pcm_sample payload (2 * i) = trunc (fmul (audio ! i) 32767)"
    unfolding pcm_sample_encoded(1)[OF assms(2,3) k0]
    unfolding xs interleave_nth(1)[OF assms(4)] ..
  show "pcm_sample payload (2 * i + 1) = trunc (fmul (fmul (audio ! i) float_0_7) 32767)"
    unfolding pcm_sample_encoded(1)[OF assms(2,3) k1]
    unfolding xs interleave_nth(2)[OF assms(4)] ..
qed

text \<open>
  C4 as amended: in every block encoded with two channels, whatever array line 80
  produced (its samples at most 1 in magnitude, as an amplitude in \<open>[0, 1]\<close> ensures), the
  payload holds two samples per array element, left and right alternating; left sample
  \<open>i\<close> is the 16-bit conversion of element \<open>i\<close>, and right sample \<open>i\<close> is the 16-bit
  conversion of the binary64 product of element \<open>i\<close> and 0.7. The factor is applied to
  the floating-point value before the conversion, not to the emitted integer. The payload
  of \<open>generate_audio_buffer\<close> is that encoding of its sine array.
\<close>

theorem stereo_right_converts_scaled_left:
  assumes "channels s = 2" "encode_audio s audio = Inr payload"
    and "\<forall>a \<in> set audio. \<bar>a\<bar> \<le> 1"
  shows "length payload = 4 * length audio
       \<and> (\<forall>i < length audio.
             pcm_sample payload (2 * i) = trunc (fmul (audio ! i) 32767)
           \<and> pcm_sample payload (2 * i + 1)
               = trunc (fmul (fmul (audio ! i) float_0_7) 32767))
       \<and> (\<forall>p s'. generate_audio_buffer s = Inr (p, s') \<longrightarrow> encode_audio s (sine_wave s) = Inr p)
       \<and> (0 \<le> amplitude s \<and> amplitude s \<le> 1 \<longrightarrow> (\<forall>a \<in> set (sine_wave s). \<bar>a\<bar> \<le> 1))"
proof -
  have "length payload = 2 * length (projr (to_channels s audio))"
    unfolding encode_audio_Inr(2)[OF assms(2)] by (simp add: length_tobytes audio_int16_def)
  also have "\<dots> = 4 * length audio"
    unfolding stereo_samples[OF assms(1,2)] length_interleave by simp
  finally have l: "length payload = 4 * length audio" .
  have g: "\<forall>p s'. generate_audio_buffer s = Inr (p, s') \<longrightarrow> encode_audio s (sine_wave s) = Inr p"
    using generate_audio_buffer_encode by blast
  have b: "0 \<le> amplitude s \<and> amplitude s \<le> 1 \<longrightarrow> (\<forall>a \<in> set (sine_wave s). \<bar>a\<bar> \<le> 1)"
    using sine_wave_bounded by blast
  show ?thesis using l g b stereo_pcm[OF assms] by blast
qed

lemma trunc_between:
  assumes "0 \<le> n" "real_of_int n \<le> y" "y < real_of_int n + 1"
  shows "trunc y = n"
proof -
  have "0 \<le> y" using assms(1,2) by simp
  moreover have "\<lfloor>y\<rfloor> = n" using assms(2,3) by (simp add: floor_eq_iff)
  ultimately show ?thesis by (simp add: trunc_def)
qed

lemma peak_probe_stereo:
  assumes "0 \<le> a" "a \<le> 1"
  shows "pcm_sample (fst (projr (generate_audio_buffer (peak_probe 2 a)))) 2
         = trunc (fmul a 32767)"
    and "pcm_sample (fst (projr (generate_audio_buffer (peak_probe 2 a)))) 3
         = trunc (fmul (fmul a float_0_7) 32767)"
proof -
  let ?s = "peak_probe 2 a"
  have c: "channels ?s = 2" by (simp add: peak_probe_fields)
  have w: "sine_wave ?s ! 1 = a" unfolding peak_probe_wave using assms by simp
  have i: "1 < length (sine_wave ?s)" by (simp add: length_sine_wave peak_probe_fields)
  have "pcm_sample (fst (projr (generate_audio_buffer ?s))) (2 * 1) = trunc (fmul a 32767)"
    unfolding stereo_pcm(1)[OF c peak_probe_encodes peak_probe_bounded i] w ..
  then show "pcm_sample (fst (projr (generate_audio_buffer ?s))) 2 = trunc (fmul a 32767)"
    by simp
  have "pcm_sample (fst (projr (generate_audio_buffer ?s))) (2 * 1 + 1)
        = trunc (fmul (fmul a float_0_7) 32767)"
    unfolding stereo_pcm(2)[OF c peak_probe_encodes peak_probe_bounded i] w ..
  then show "pcm_sample (fst (projr (generate_audio_buffer ?s))) 3
        = trunc (fmul (fmul a float_0_7) 32767)"
    by (simp add: numeral_3_eq_3)
qed

lemma small_amplitude_left: "trunc (fmul (9 / 100000) 32767) = 2"
proof -
  let ?x = "9 / 100000 * 32767 :: real"
  have lo: "real_of_int 5 / 2 ^ 1 \<le> binary64 ?x"
    by (rule binary64_ge) simp_all
  have hi: "binary64 ?x \<le> real_of_int 95 / 2 ^ 5"
    by (rule binary64_le) simp_all
  show ?thesis unfolding fmul_def
    by (rule trunc_between) (use lo hi in simp_all)
qed

lemma small_amplitude_right: "trunc (fmul (fmul (9 / 100000) float_0_7) 32767) = 2"
proof -
  let ?y = "9 / 100000 * float_0_7 :: real"
  have lo: "real_of_int 69269232 / 2 ^ 40 \<le> binary64 ?y"
    by (rule binary64_ge) (simp_all add: float_0_7_def)
  have hi: "binary64 ?y \<le> real_of_int 69269233 / 2 ^ 40"
    by (rule binary64_le) (simp_all add: float_0_7_def)
  let ?z = "binary64 ?y * 32767"
  have z0: "0 \<le> binary64 ?y" using lo by simp
  have zlo: "2 \<le> ?z" using lo by simp
  have zhi: "?z \<le> 5 / 2" using hi by simp
  have r: "\<bar>?z\<bar> * 2 ^ 1 < 2 ^ 53" using zlo zhi by simp
  have r0: "\<bar>?z\<bar> * 2 ^ 0 < 2 ^ 53" using zlo zhi by simp
  have lo2: "real_of_int 2 / 2 ^ 0 \<le> binary64 ?z"
    by (rule binary64_ge[OF _ r0]) (use zlo in simp_all)
  have hi2: "binary64 ?z \<le> real_of_int 5 / 2 ^ 1"
    by (rule binary64_le[OF _ r]) (use zhi in simp_all)
  show ?thesis unfolding fmul_def
    by (rule trunc_between) (use lo2 hi2 in simp_all)
qed

text \<open>
  C4 as stated says that the emitted right-channel samples equal the emitted left-channel
  samples scaled by 0.7. The factor is applied before the conversion, and the conversion
  drops the fraction of each channel separately: at amplitude 0.00009 the peak sample is
  2.949 in units of 1/32767, the left channel emits 2, the right channel emits
  \<open>trunc 2.064 = 2\<close>, and 0.7 times the left value is 1.4, which is not 2 and does not
  round to 2.
\<close>

theorem right_sample_is_not_scaled_left_sample:
  "channels (peak_probe 2 (9 / 100000)) = 2
   \<and> amplitude (peak_probe 2 (9 / 100000)) = 9 / 100000
   \<and> \<not> isl (generate_audio_buffer (peak_probe 2 (9 / 100000)))
   \<and> pcm_sample (fst (projr (generate_audio_buffer (peak_probe 2 (9 / 100000))))) 2 = 2
   \<and> pcm_sample (fst (projr (generate_audio_buffer (peak_probe 2 (9 / 100000))))) 3 = 2
   \<and> real_of_int (pcm_sample (fst (projr (generate_audio_buffer (peak_probe 2 (9 / 100000))))) 3)
       \<noteq> 7 / 10 * real_of_int
             (pcm_sample (fst (projr (generate_audio_buffer (peak_probe 2 (9 / 100000))))) 2)
   \<and> pcm_sample (fst (projr (generate_audio_buffer (peak_probe 2 (9 / 100000))))) 3
       \<noteq> round (7 / 10 * real_of_int
             (pcm_sample (fst (projr (generate_audio_buffer (peak_probe 2 (9 / 100000))))) 2))"
proof -
  let ?s = "peak_probe 2 (9 / 100000)"
  have c: "channels ?s = 2" and a: "amplitude ?s = 9 / 100000"
    by (simp_all add: peak_probe_fields)
  have i: "\<not> isl (generate_audio_buffer ?s)" by (subst peak_probe_generates) simp
  have l: "pcm_sample (fst (projr (generate_audio_buffer ?s))) 2 = 2"
    by (subst peak_probe_stereo(1)) (simp_all add: small_amplitude_left)
  have r: "pcm_sample (fst (projr (generate_audio_buffer ?s))) 3 = 2"
    by (subst peak_probe_stereo(2)) (simp_all add: small_amplitude_right)
  have n1: "real_of_int 2 \<noteq> 7 / 10 * real_of_int 2" by simp
  have n2: "(2::int) \<noteq> round (7 / 10 * real_of_int 2)" by (simp add: round_def)
  show ?thesis unfolding l r by (intro conjI c a i n1 n2 refl)
qed

lemma half_amplitude_right: "trunc (fmul (fmul (1 / 2) float_0_7) 32767) = 11468"
proof -
  have "binary64 (real_of_int 3152519739159347 / 2 ^ 53) = real_of_int 3152519739159347 / 2 ^ 53"
    by (rule binary64_exact) simp_all
  then have h: "fmul (1 / 2) float_0_7 = 3152519739159347 / 2 ^ 53"
    by (simp add: fmul_def float_0_7_def)
  let ?z = "3152519739159347 / 2 ^ 53 * 32767 :: real"
  have lo: "real_of_int 11468 / 2 ^ 0 \<le> binary64 ?z"
    by (rule binary64_ge) simp_all
  have hi: "binary64 ?z \<le> real_of_int 22937 / 2 ^ 1"
    by (rule binary64_le) simp_all
  have t: "fmul (fmul (1 / 2) float_0_7) 32767 = binary64 ?z"
    unfolding h by (simp only: fmul_def)
  show ?thesis unfolding t
    by (rule trunc_between) (use lo hi in simp_all)
qed

theorem stereo_right_converts_scaled_left_witness:
  "channels default_generator = 2
   \<and> \<not> isl (encode_audio default_generator [0, 1 / 2])
   \<and> length (projr (encode_audio default_generator [0, 1 / 2])) = 8
   \<and> pcm_sample (projr (encode_audio default_generator [0, 1 / 2])) 2 = 16383
   \<and> pcm_sample (projr (encode_audio default_generator [0, 1 / 2])) 3 = 11468"
proof -
  let ?s = "default_generator"
  let ?a = "[0, 1 / 2] :: real list"
  have c: "channels ?s = 2" by (simp add: default_generator_def init_def)
  have b: "buffer_size ?s = 64" by (simp add: default_generator_def init_def)
  have e: "encode_audio ?s ?a = Inr (projr (encode_audio ?s ?a))"
    by (simp add: encode_audio_def to_channels_def c b)
  have h: "\<forall>a \<in> set ?a. \<bar>a\<bar> \<le> 1" by simp
  note th = stereo_right_converts_scaled_left[OF c e h]
  from th have l: "length (projr (encode_audio ?s ?a)) = 4 * length ?a" by blast
  from th have q: "\<forall>i < length ?a.
             pcm_sample (projr (encode_audio ?s ?a)) (2 * i) = trunc (fmul (?a ! i) 32767)
           \<and> pcm_sample (projr (encode_audio ?s ?a)) (2 * i + 1)
               = trunc (fmul (fmul (?a ! i) float_0_7) 32767)"
    by blast
  have "(1::nat) < length ?a" by simp
  from q[rule_format, OF this]
  have "pcm_sample (projr (encode_audio ?s ?a)) (2 * 1) = trunc (fmul (1 / 2) 32767)"
    and "pcm_sample (projr (encode_audio ?s ?a)) (2 * 1 + 1)
         = trunc (fmul (fmul (1 / 2) float_0_7) 32767)"
    by simp_all
  then have p2: "pcm_sample (projr (encode_audio ?s ?a)) 2 = 16383"
    and p3: "pcm_sample (projr (encode_audio ?s ?a)) 3 = 11468"
    unfolding half_scale_exact half_amplitude_right by (simp_all add: trunc_def numeral_3_eq_3)
  have i: "\<not> isl (encode_audio ?s ?a)" by (subst e) simp
  have l8: "length (projr (encode_audio ?s ?a)) = 8" using l by simp
  show ?thesis by (intro conjI c i l8 p2 p3)
qed

subsection \<open>C7: a transmit failure ends the run\<close>

lemma pace_fields:
  "pace t s = s\<lparr>stdout := stdout (pace t s)\<rparr>"
  "errors_reported (pace t s) = errors_reported s"
  by (simp_all add: pace_def errors_reported_def)

lemma streaming_loop_good_ticks:
  assumes "can_frame s" "running s" "socket_open s" "no_stop duration start_time ts"
  shows "\<exists>s'. streaming_loop send_rtp_packet duration packet_interval start_time
                 (good_ticks ts @ rest) packet_count s
             = streaming_loop send_rtp_packet duration packet_interval start_time
                 rest (packet_count + int (length ts)) s'
           \<and> can_frame s' \<and> running s' \<and> socket_open s'
           \<and> errors_reported s' = errors_reported s
           \<and> length (wire s') = length (wire s) + length ts
           \<and> sequence_number s' = sequence_number s + int (length ts)"
  using assms
proof (induction ts arbitrary: s packet_count)
  case Nil
  then show ?case by (intro exI[of _ s]) (simp add: good_ticks_def)
next
  case (Cons t ts)
  obtain now1 now2 where t: "t = (now1, now2)" by (cases t)
  let ?s1 = "s\<lparr>phase := wrapped_phase s,
                  wire := wire s @ [((target_ip s, target_port s),
                             projr (create_rtp_header s) @ fst (projr (generate_audio_buffer s)))],
                  sequence_number := sequence_number s + 1,
                  timestamp := timestamp s + buffer_size s * channels s\<rparr>"
  let ?st = "start_time + real_of_int (packet_count + 1) * packet_interval - now1"
  let ?s2 = "pace ?st ?s1"
  have send: "send_rtp_packet True s = Inr (True, ?s1)"
    using Cons.prems by (simp add: send_rtp_packet_can_frame)
  have nd: "\<not> duration_reached duration (now2 - start_time)"
    using Cons.prems(4) by (simp add: no_stop_def t)
  have step: "streaming_loop send_rtp_packet duration packet_interval start_time
                 (good_ticks (t # ts) @ rest) packet_count s
            = streaming_loop send_rtp_packet duration packet_interval start_time
                 (good_ticks ts @ rest) (packet_count + 1) ?s2"
    using Cons.prems(2) nd by (simp add: good_ticks_def t send Let_def)
  have s2: "?s2 = ?s1\<lparr>stdout := stdout ?s2\<rparr>" by (rule pace_fields(1))
  have cf: "can_frame ?s2"
    by (subst s2, rule can_frame_cong[THEN iffD2, OF _ _ _ _ _ _ _ _ _ _ Cons.prems(1)]) simp_all
  have r: "running ?s2" by (subst s2) (simp add: Cons.prems)
  have so: "socket_open ?s2" by (subst s2) (simp add: Cons.prems)
  have ns: "no_stop duration start_time ts" using Cons.prems(4) by (simp add: no_stop_def)
  have e2: "errors_reported ?s2 = errors_reported s"
    by (simp add: pace_fields(2)) (simp add: errors_reported_def)
  have w2: "length (wire ?s2) = length (wire s) + 1" by (subst s2) simp
  have q2: "sequence_number ?s2 = sequence_number s + 1" by (subst s2) simp
  from Cons.IH[OF cf r so ns, of "packet_count + 1"] obtain s' where
    A: "streaming_loop send_rtp_packet duration packet_interval start_time
                 (good_ticks ts @ rest) (packet_count + 1) ?s2
             = streaming_loop send_rtp_packet duration packet_interval start_time
                 rest (packet_count + 1 + int (length ts)) s'"
    and B: "can_frame s'" "running s'" "socket_open s'"
    and C: "errors_reported s' = errors_reported ?s2"
    and D: "length (wire s') = length (wire ?s2) + length ts"
    and E: "sequence_number s' = sequence_number ?s2 + int (length ts)"
    by blast
  have pc: "packet_count + 1 + int (length ts) = packet_count + int (length (t # ts))"
    by simp
  have "streaming_loop send_rtp_packet duration packet_interval start_time
                 (good_ticks (t # ts) @ rest) packet_count s
             = streaming_loop send_rtp_packet duration packet_interval start_time
                 rest (packet_count + int (length (t # ts))) s'"
    unfolding step A pc ..
  moreover have "errors_reported s' = errors_reported s" using C e2 by simp
  moreover have "length (wire s') = length (wire s) + length (t # ts)" using D w2 by simp
  moreover have "sequence_number s' = sequence_number s + int (length (t # ts))"
    using E q2 by simp
  ultimately show ?case using B by blast
qed


lemma send_on_closed_socket:
  assumes "can_frame s" "\<not> socket_open s"
  shows "send_rtp_packet net_ok s
         = Inr (False, s\<lparr>phase := wrapped_phase s,
                         stdout := stdout s @ [Error_sending_RTP_packet]\<rparr>)"
  using assms by (simp add: send_rtp_packet_can_frame)

lemma banner_fields:
  "banner s = s\<lparr>stdout := stdout (banner s)\<rparr>"
  "errors_reported (banner s) = errors_reported s"
  by (simp_all add: banner_def errors_reported_def)

lemma start_streaming_unfold:
  assumes "sample_rate s \<noteq> 0"
  shows "start_streaming duration start_time events s
         = (case streaming_loop send_rtp_packet duration
                   (real_of_int (buffer_size s) / real_of_int (sample_rate s)) start_time events 0
                   ((banner s)\<lparr>running := True\<rparr>) of
              None \<Rightarrow> None
            | Some (exc, packet_count, s2) \<Rightarrow> Some (exc, finally_block packet_count s2))"
  using assms by (simp add: start_streaming_def run_loop_def Let_def banner_def)

lemma loop_stops_on_failed_send:
  assumes "can_frame s" "running s"
  shows "streaming_loop send_rtp_packet duration packet_interval start_time
           (Tick net_ok now1 now2 # rest) packet_count s
         = (if socket_open s \<and> net_ok
            then streaming_loop send_rtp_packet duration packet_interval start_time
                   (Tick net_ok now1 now2 # rest) packet_count s
            else Some (None, packet_count,
                   s\<lparr>phase := wrapped_phase s,
                     stdout := stdout s @ [Error_sending_RTP_packet]\<rparr>))"
  using assms by (simp add: send_rtp_packet_can_frame)


lemma restart_sends_nothing:
  assumes "can_frame s" "\<not> socket_open s"
  shows "\<exists>s''. start_streaming d st (ev # evs) s = Some (None, s'') \<and> wire s'' = wire s"
proof -
  let ?s1 = "(banner s)\<lparr>running := True\<rparr>"
  let ?pi = "real_of_int (buffer_size s) / real_of_int (sample_rate s)"
  have sr: "sample_rate s \<noteq> 0" using assms(1) by (simp add: can_frame_def)
  have b: "?s1 = s\<lparr>stdout := stdout (banner s), running := True\<rparr>"
    by (subst banner_fields(1)) simp
  have cf: "can_frame ?s1"
    by (subst b, rule can_frame_cong[THEN iffD2, OF _ _ _ _ _ _ _ _ _ _ assms(1)]) simp_all
  have r: "running ?s1" by simp
  have so: "\<not> socket_open ?s1" by (subst b) (simp add: assms(2))
  have w: "wire ?s1 = wire s" by (subst b) simp
  show ?thesis
  proof (cases ev)
    case (Tick net_ok now1 now2)
    let ?sf = "?s1\<lparr>phase := wrapped_phase ?s1,
                    stdout := stdout ?s1 @ [Error_sending_RTP_packet]\<rparr>"
    have L: "streaming_loop send_rtp_packet d ?pi st (ev # evs) 0 ?s1 = Some (None, 0, ?sf)"
      unfolding Tick by (subst loop_stops_on_failed_send[OF cf r]) (simp only: so simp_thms if_False)
    have "start_streaming d st (ev # evs) s = Some (None, finally_block 0 ?sf)"
      unfolding start_streaming_unfold[OF sr] L by simp
    moreover have "wire (finally_block 0 ?sf) = wire s"
      by (simp add: finally_block_def banner_def)
    ultimately show ?thesis by blast
  next
    case Interrupt
    let ?sf = "?s1\<lparr>stdout := stdout ?s1 @ [Stopping_RTP_stream]\<rparr>"
    have L: "streaming_loop send_rtp_packet d ?pi st (ev # evs) 0 ?s1 = Some (None, 0, ?sf)"
      unfolding Interrupt by simp
    have "start_streaming d st (ev # evs) s = Some (None, finally_block 0 ?sf)"
      unfolding start_streaming_unfold[OF sr] L by simp
    moreover have "wire (finally_block 0 ?sf) = wire s"
      by (simp add: finally_block_def banner_def)
    ultimately show ?thesis by blast
  qed
qed

lemma start_streaming_until_failure:
  assumes "can_frame s" "socket_open s" "no_stop duration start_time ts"
  shows "\<exists>s'. start_streaming duration start_time
                 (good_ticks ts @ Tick False now1 now2 # rest) s = Some (None, s')
           \<and> last (stdout s') = Sent_RTP_packets (int (length ts))
           \<and> errors_reported s' = errors_reported s + 1
           \<and> length (wire s') = length (wire s) + length ts
           \<and> sequence_number s' = sequence_number s + int (length ts)
           \<and> \<not> running s' \<and> \<not> socket_open s' \<and> can_frame s'"
proof -
  let ?s1 = "(banner s)\<lparr>running := True\<rparr>"
  let ?pi = "real_of_int (buffer_size s) / real_of_int (sample_rate s)"
  have sr: "sample_rate s \<noteq> 0" using assms(1) by (simp add: can_frame_def)
  have b: "?s1 = s\<lparr>stdout := stdout (banner s), running := True\<rparr>"
    by (subst banner_fields(1)) simp
  have cf: "can_frame ?s1"
    by (subst b, rule can_frame_cong[THEN iffD2, OF _ _ _ _ _ _ _ _ _ _ assms(1)]) simp_all
  have r: "running ?s1" by simp
  have so: "socket_open ?s1" by (subst b) (simp add: assms(2))
  have e1: "errors_reported ?s1 = errors_reported s"
    by (simp add: errors_reported_def banner_def)
  have w1: "wire ?s1 = wire s" by (subst b) simp
  have q1: "sequence_number ?s1 = sequence_number s" by (subst b) simp
  from streaming_loop_good_ticks[OF cf r so assms(3), of ?pi "Tick False now1 now2 # rest" 0]
  obtain sn where
    A: "streaming_loop send_rtp_packet duration ?pi start_time
          (good_ticks ts @ Tick False now1 now2 # rest) 0 ?s1
        = streaming_loop send_rtp_packet duration ?pi start_time
          (Tick False now1 now2 # rest) (0 + int (length ts)) sn"
    and B: "can_frame sn" "running sn" "socket_open sn"
    and C: "errors_reported sn = errors_reported ?s1"
    and D: "length (wire sn) = length (wire ?s1) + length ts"
    and E: "sequence_number sn = sequence_number ?s1 + int (length ts)"
    by blast
  let ?sf = "sn\<lparr>phase := wrapped_phase sn, stdout := stdout sn @ [Error_sending_RTP_packet]\<rparr>"
  let ?s' = "finally_block (int (length ts)) ?sf"
  have F: "streaming_loop send_rtp_packet duration ?pi start_time
          (Tick False now1 now2 # rest) (0 + int (length ts)) sn
        = Some (None, int (length ts), ?sf)"
    by (subst loop_stops_on_failed_send[OF B(1,2)]) simp
  have run: "start_streaming duration start_time
                 (good_ticks ts @ Tick False now1 now2 # rest) s = Some (None, ?s')"
    unfolding start_streaming_unfold[OF sr] A F by simp
  have "last (stdout ?s') = Sent_RTP_packets (int (length ts))"
    by (simp add: finally_block_def)
  moreover have "errors_reported ?s' = errors_reported s + 1"
    using C e1 by (simp add: finally_block_def errors_reported_def)
  moreover have "length (wire ?s') = length (wire s) + length ts"
    using D w1 by (simp add: finally_block_def)
  moreover have "sequence_number ?s' = sequence_number s + int (length ts)"
    using E q1 by (simp add: finally_block_def)
  moreover have "\<not> running ?s'" "\<not> socket_open ?s'" by (simp_all add: finally_block_def)
  moreover have "can_frame ?s'"
    by (rule can_frame_cong[THEN iffD2, OF _ _ _ _ _ _ _ _ _ _ B(1)])
       (simp_all add: finally_block_def)
  ultimately show ?thesis using run by blast
qed


text \<open>
  C7: let the object be able to frame packets, with its socket open, and let the first
  \<open>n\<close> iterations send successfully without the duration check ending the loop. If the
  \<open>sendto\<close> of iteration \<open>n + 1\<close> raises, \<open>start_streaming\<close> returns without an
  exception, its last line reports \<open>n\<close> packets, \<open>n\<close> datagrams were delivered,
  exactly one transmit error was printed, and the socket is closed. From then on every
  \<open>send_rtp_packet\<close> on the object fails, and a further \<open>start_streaming\<close> delivers
  nothing.
\<close>

theorem transmit_failure_ends_the_run:
  assumes "can_frame s" "socket_open s" "no_stop duration start_time ts"
  shows "\<exists>s'. start_streaming duration start_time
                 (good_ticks ts @ Tick False now1 now2 # rest) s = Some (None, s')
           \<and> last (stdout s') = Sent_RTP_packets (int (length ts))
           \<and> errors_reported s' = errors_reported s + 1
           \<and> length (wire s') = length (wire s) + length ts
           \<and> sequence_number s' = sequence_number s + int (length ts)
           \<and> \<not> running s' \<and> \<not> socket_open s'
           \<and> (\<forall>net_ok. send_rtp_packet net_ok s'
                  = Inr (False, s'\<lparr>phase := wrapped_phase s',
                                   stdout := stdout s' @ [Error_sending_RTP_packet]\<rparr>))
           \<and> (\<forall>d st ev evs. \<exists>s''. start_streaming d st (ev # evs) s' = Some (None, s'')
                  \<and> wire s'' = wire s')"
proof -
  from start_streaming_until_failure[OF assms, of now1 now2 rest] obtain s' where
    run: "start_streaming duration start_time
            (good_ticks ts @ Tick False now1 now2 # rest) s = Some (None, s')"
    and p: "last (stdout s') = Sent_RTP_packets (int (length ts))"
      "errors_reported s' = errors_reported s + 1"
      "length (wire s') = length (wire s) + length ts"
      "sequence_number s' = sequence_number s + int (length ts)"
      "\<not> running s'" "\<not> socket_open s'"
    and cf: "can_frame s'"
    by blast
  have a: "\<forall>net_ok. send_rtp_packet net_ok s'
             = Inr (False, s'\<lparr>phase := wrapped_phase s',
                              stdout := stdout s' @ [Error_sending_RTP_packet]\<rparr>)"
    using send_on_closed_socket[OF cf p(6)] by blast
  have b: "\<forall>d st ev evs. \<exists>s''. start_streaming d st (ev # evs) s' = Some (None, s'')
             \<and> wire s'' = wire s'"
    using restart_sends_nothing[OF cf p(6)] by blast
  show ?thesis using run p a b by blast
qed

theorem transmit_failure_ends_the_run_witness:
  "can_frame default_generator \<and> socket_open default_generator
   \<and> no_stop (Some 1) 0 [(1 / 750, 1 / 750), (2 / 750, 2 / 750), (3 / 750, 3 / 750)]
   \<and> (\<exists>s'. start_streaming (Some 1) 0
               (good_ticks [(1 / 750, 1 / 750), (2 / 750, 2 / 750), (3 / 750, 3 / 750)]
                  @ [Tick False (4 / 750) (4 / 750)]) default_generator = Some (None, s')
          \<and> last (stdout s') = Sent_RTP_packets 3
          \<and> errors_reported s' = 1
          \<and> length (wire s') = 3
          \<and> sequence_number s' = 3
          \<and> \<not> socket_open s')"
proof -
  let ?ts = "[(1 / 750, 1 / 750), (2 / 750, 2 / 750), (3 / 750, 3 / 750)] :: (real \<times> real) list"
  have so: "socket_open default_generator" by (simp add: default_generator_def init_def)
  have ns: "no_stop (Some 1) 0 ?ts" by (simp add: no_stop_def duration_reached_def)
  have d: "errors_reported default_generator = 0" "wire default_generator = []"
    "sequence_number default_generator = 0"
    by (simp_all add: errors_reported_def default_generator_def init_def)
  from transmit_failure_ends_the_run[OF can_frame_default so ns, of "4 / 750" "4 / 750" "[]"]
  obtain s' where "start_streaming (Some 1) 0 (good_ticks ?ts @ [Tick False (4 / 750) (4 / 750)])
                     default_generator = Some (None, s')"
    "last (stdout s') = Sent_RTP_packets (int (length ?ts))"
    "errors_reported s' = errors_reported default_generator + 1"
    "length (wire s') = length (wire default_generator) + length ?ts"
    "sequence_number s' = sequence_number default_generator + int (length ?ts)"
    "\<not> socket_open s'"
    by blast
  then have "start_streaming (Some 1) 0 (good_ticks ?ts @ [Tick False (4 / 750) (4 / 750)])
                     default_generator = Some (None, s')
          \<and> last (stdout s') = Sent_RTP_packets 3
          \<and> errors_reported s' = 1
          \<and> length (wire s') = 3
          \<and> sequence_number s' = 3
          \<and> \<not> socket_open s'"
    unfolding d by simp
  then show ?thesis using can_frame_default so ns by blast
qed

end
